theory Spec2Isabelle
  imports Main
begin

section \<open>The scan command of jfrog-cli-core (xray/commands/scan/scan.go)\<close>

text \<open>
  A shallow embedding of \<^verbatim>\<open>scan.go\<close>: the two-stage producer/consumer pipeline that
  collects files, indexes them with the external indexer and sends each graph to Xray.
  Strings are byte lists, Go's \<^verbatim>\<open>int\<close> is \<open>int\<close>, a Go \<^verbatim>\<open>(value, error)\<close> result is a pair
  with an \<open>option\<close> error (\<open>None\<close> is \<^verbatim>\<open>nil\<close>).
\<close>

subsection \<open>Strings\<close>

definition HasSuffix :: "string \<Rightarrow> string \<Rightarrow> bool" where
  \<comment> \<open>\<^verbatim>\<open>strings.HasSuffix\<close>: \<^verbatim>\<open>len(s) >= len(suffix) && s[len(s)-len(suffix):] == suffix\<close>\<close>
  "HasSuffix s suffix =
     (length suffix \<le> length s \<and> drop (length s - length suffix) s = suffix)"

fun LastIndexByte :: "string \<Rightarrow> char \<Rightarrow> int" where
  \<comment> \<open>the index of the last occurrence of the byte, \<open>-1\<close> when there is none\<close>
  "LastIndexByte [] c = - 1"
| "LastIndexByte (x # xs) c =
     (let r = LastIndexByte xs c
      in if 0 \<le> r then r + 1 else if x = c then 0 else - 1)"

definition LastIndex :: "string \<Rightarrow> string \<Rightarrow> int" where
  \<comment> \<open>\<^verbatim>\<open>strings.LastIndex\<close>, which the source calls with the one-byte separator \<^verbatim>\<open>"/"\<close>
      only: an empty separator gives \<^verbatim>\<open>len(s)\<close>, a one-byte separator is the byte search.
      Longer separators are not used by the source; the model gives them \<open>-1\<close>.\<close>
  "LastIndex s substr =
     (case substr of
        [] \<Rightarrow> int (length s)
      | [c] \<Rightarrow> LastIndexByte s c
      | _ \<Rightarrow> - 1)"

definition getXrayRepoPathFromTarget :: "string \<Rightarrow> string" where
  \<comment> \<open>\<^verbatim>\<open>target[:k]\<close> is in range: \<open>0 \<le> k \<le> len(target)\<close> for \<open>k = LastIndex + 1\<close>\<close>
  "getXrayRepoPathFromTarget target =
     (if HasSuffix target ''/'' then target
      else take (nat (LastIndex target ''/'' + 1)) target)"

definition strip_filename :: "string \<Rightarrow> string" where
  \<comment> \<open>the spec's words: the prefix of the target up to and including its last separator
      (the trailing file name component removed)\<close>
  "strip_filename target = rev (dropWhile (\<lambda>c. c \<noteq> CHR ''/'') (rev target))"

subsection \<open>Data\<close>

datatype go_error =
    ExitError int string  \<comment> \<open>\<^verbatim>\<open>*exec.ExitError\<close>: \<^verbatim>\<open>ExitCode()\<close> and \<^verbatim>\<open>Error()\<close>\<close>
  | OtherError string     \<comment> \<open>any other \<^verbatim>\<open>error\<close>, with its \<^verbatim>\<open>Error()\<close>\<close>

fun Error_text :: "go_error \<Rightarrow> string" where
  "Error_text (ExitError code text) = text"
| "Error_text (OtherError text) = text"

datatype log_entry = LogDebug string | LogInfo string | LogError string

text \<open>\<^verbatim>\<open>spec.File\<close>, one file-spec group: the fields the scan command reads.\<close>

record File =
  Pattern :: string
  Target :: string

text \<open>\<^verbatim>\<open>services.GraphNode\<close>; its zero value has the empty \<^verbatim>\<open>Id\<close>.\<close>

record GraphNode =
  node_Id :: string
  Nodes :: "string list"

definition zero_GraphNode :: GraphNode where
  "zero_GraphNode = \<lparr>node_Id = [], Nodes = []\<rparr>"

record ScanResponse =
  ScanId :: string
  Violations :: "string list"
  Vulnerabilities :: "string list"

datatype ScanType = Dependency | Binary

record XrayGraphScanParams =
  Graph :: GraphNode
  RepoPath :: string
  Watches :: "string list"
  ProjectKey :: string
  ScanTypeTag :: ScanType

datatype OutputFormat = Table | Json

record ScanCommand =
  spec_Files :: "File list"
  threads :: int
  indexerPath :: string
  outputFormat :: OutputFormat
  projectKey :: string
  watches :: "string list"
  includeVulnerabilities :: bool
  includeLicenses :: bool
  scanPassed :: bool
  fail :: bool

definition indexingCommand :: string where
  "indexingCommand = ''graph''"

definition fileNotSupportedExitCode :: int where
  "fileNotSupportedExitCode = 3"

definition IsScanPassed :: "ScanCommand \<Rightarrow> bool" where
  "IsScanPassed scanCmd = scanPassed scanCmd"

definition SetThreads :: "int \<Rightarrow> ScanCommand \<Rightarrow> ScanCommand" where
  "SetThreads n scanCmd = scanCmd\<lparr>threads := n\<rparr>"

subsection \<open>The errors queue\<close>

text \<open>
  Modelled from the spec: \<^verbatim>\<open>clientutils.ErrorsQueue\<close> (NewErrorsQueue, AddError, GetError)
  is imported by the source and not part of it. The specification describes it as an
  error queue with bounded capacity that keeps the first N errors and can be reached from
  any worker without blocking it: a buffer of at most \<open>queueSize\<close> errors, an error
  offered to a full buffer is dropped, GetError takes the oldest error out, or returns
  \<^verbatim>\<open>nil\<close> from an empty buffer.
\<close>

record ErrorsQueue =
  queueSize :: nat
  errorsChan :: "go_error list"

definition NewErrorsQueue :: "int \<Rightarrow> ErrorsQueue" where
  "NewErrorsQueue n = \<lparr>queueSize = (if 1 < n then nat n else 1), errorsChan = []\<rparr>"

definition AddError :: "go_error \<Rightarrow> ErrorsQueue \<Rightarrow> ErrorsQueue" where
  "AddError err q =
     (if length (errorsChan q) < queueSize q then q\<lparr>errorsChan := errorsChan q @ [err]\<rparr>
      else q)"

definition GetError :: "ErrorsQueue \<Rightarrow> go_error option \<times> ErrorsQueue" where
  "GetError q =
     (case errorsChan q of
        [] \<Rightarrow> (None, q)
      | err # rest \<Rightarrow> (Some err, q\<lparr>errorsChan := rest\<rparr>))"

subsection \<open>The worker pool\<close>

text \<open>
  Modelled from the spec: \<^verbatim>\<open>parallel.Runner\<close> (NewRunner, AddTaskWithError, Done, Run) is
  imported by the source and not part of it. The specification describes a bounded worker
  pool with a backlog of bounded capacity: adding a task beyond the capacity blocks the
  caller, every worker has a thread index of its own and runs one task at a time, Done
  marks the pool as having no more producers, and Run blocks its caller until the pool
  has fully drained. An error returned by a task is passed to the handler given with the
  task. The source creates both pools with \<^verbatim>\<open>failFast = false\<close>; with \<^verbatim>\<open>failFast\<close> the first
  failing task cancels the pool.

  \<open>tasks\<close> is the backlog in arrival order, \<open>running ! t\<close> the task that worker \<open>t\<close>
  is executing, if any. The specification gives a pool the configured number of workers
  with a minimum of 1. \<^verbatim>\<open>Run\<close> passes the configured number itself to \<^verbatim>\<open>NewRunner\<close>, so that
  minimum is the pool's: \<open>NewRunner n\<close> has \<open>n\<close> workers, and one when \<open>n\<close> is not positive.
\<close>

record 'a Runner =
  maxParallel :: int
  capacity :: nat
  failFast :: bool
  tasks :: "'a list"
  closed :: bool
  cancelled :: bool
  running :: "'a option list"

definition NewRunner :: "int \<Rightarrow> nat \<Rightarrow> bool \<Rightarrow> 'a Runner" where
  "NewRunner n cap ff =
     (let consumers = (if n < 1 then 1 else n)
      in \<lparr>maxParallel = consumers, capacity = cap, failFast = ff, tasks = [], closed = False,
          cancelled = False, running = replicate (nat consumers) None\<rparr>)"

datatype 'a blocking = Proceeds 'a | Blocks | Panics string

definition AddTaskWithError :: "'a \<Rightarrow> 'a Runner \<Rightarrow> 'a Runner blocking" where
  \<comment> \<open>the error handler is fixed per pool in the source and is applied by the worker step\<close>
  "AddTaskWithError task r =
     (if closed r then Panics ''send on closed channel''
      else if length (tasks r) < capacity r then Proceeds (r\<lparr>tasks := tasks r @ [task]\<rparr>)
      else Blocks)"

definition Done :: "'a Runner \<Rightarrow> 'a Runner blocking" where
  "Done r = (if closed r then Panics ''close of closed channel''
             else Proceeds (r\<lparr>closed := True\<rparr>))"

definition idle :: "'a Runner \<Rightarrow> bool" where
  "idle r = list_all (\<lambda>w. w = None) (running r)"

definition drained :: "'a Runner \<Rightarrow> bool" where
  \<comment> \<open>no more producers, nothing in the backlog, no task being executed\<close>
  "drained r = (closed r \<and> tasks r = [] \<and> idle r)"

definition Run_returns :: "'a Runner \<Rightarrow> bool" where
  \<comment> \<open>when the blocking \<^verbatim>\<open>Run()\<close> may return\<close>
  "Run_returns r = (idle r \<and> (cancelled r \<or> (closed r \<and> tasks r = [])))"

definition take_task :: "nat \<Rightarrow> 'a Runner \<Rightarrow> 'a Runner option" where
  \<comment> \<open>worker \<open>t\<close> receives the oldest task of the backlog\<close>
  "take_task t r =
     (if t < length (running r) \<and> running r ! t = None \<and> \<not> cancelled r
      then (case tasks r of
              [] \<Rightarrow> None
            | task # rest \<Rightarrow> Some (r\<lparr>tasks := rest, running := (running r)[t := Some task]\<rparr>))
      else None)"

definition finish_task :: "nat \<Rightarrow> go_error option \<Rightarrow> 'a Runner \<Rightarrow> 'a Runner" where
  \<comment> \<open>worker \<open>t\<close> is done with its task, which returned \<open>err\<close>\<close>
  "finish_task t err r =
     r\<lparr>running := (running r)[t := None],
       cancelled := (cancelled r \<or> (failFast r \<and> err \<noteq> None))\<rparr>"

subsection \<open>Collecting the files of a file-spec group\<close>

text \<open>
  The file system, the pattern utilities and the methods of \<^verbatim>\<open>spec.File\<close> are outside the
  source file; they are parameters of the model, with the arguments the source passes and
  the \<^verbatim>\<open>(value, error)\<close> results it reads. \<open>'cp\<close> stands for the common parameters that
  \<^verbatim>\<open>ToCommonParams\<close> returns, a compiled regular expression is represented by its text.
\<close>

datatype PatternType = RegExp | AntPattern | WildCardPattern

record 'cp collector_env =
  ReplaceTildeWithUserHome :: "string \<Rightarrow> string"
  GetPatternType :: "File \<Rightarrow> PatternType"
  GetRootPath :: "string \<Rightarrow> string \<Rightarrow> PatternType \<Rightarrow> bool \<Rightarrow> string \<times> go_error option"
  IsDirExists :: "string \<Rightarrow> bool \<Rightarrow> bool \<times> go_error option"
  ConvertLocalPatternToRegexp :: "string \<Rightarrow> PatternType \<Rightarrow> string"
  ToCommonParams :: "File \<Rightarrow> 'cp \<times> go_error option"
  PrepareExcludePathPattern :: "'cp \<Rightarrow> string"
  regexp_Compile :: "string \<Rightarrow> string \<times> go_error option"
  IsRecursive :: "File \<Rightarrow> bool \<Rightarrow> bool \<times> go_error option"
  GetPaths :: "string \<Rightarrow> bool \<Rightarrow> bool \<Rightarrow> bool \<Rightarrow> string list \<times> go_error option"
  PrepareAndFilterPaths ::
    "string \<Rightarrow> string \<Rightarrow> bool \<Rightarrow> bool \<Rightarrow> string \<Rightarrow> string list \<times> bool \<times> go_error option"

text \<open>
  The collecting functions call \<^verbatim>\<open>dataHandlerFunc\<close> once for every file they find. The model
  returns the paths handed to the handler, in the order of the calls, together with the
  error the function returns.
\<close>

fun collectPaths_loop ::
  "'cp collector_env \<Rightarrow> string \<Rightarrow> string \<Rightarrow> string list \<Rightarrow> string list \<times> go_error option"
where
  \<comment> \<open>the \<^verbatim>\<open>for _, path := range paths\<close> loop of \<^verbatim>\<open>collectPatternMatchingFiles\<close>\<close>
  "collectPaths_loop env excludePathPattern patternRegex [] = ([], None)"
| "collectPaths_loop env excludePathPattern patternRegex (path # paths) =
     (case PrepareAndFilterPaths env path excludePathPattern False False patternRegex of
        (matches, isDir, Some err) \<Rightarrow> ([], Some err)
      | (matches, isDir, None) \<Rightarrow>
          if isDir then collectPaths_loop env excludePathPattern patternRegex paths
          else if matches \<noteq> [] then
            (case collectPaths_loop env excludePathPattern patternRegex paths of
               (handled, err) \<Rightarrow> (path # handled, err))
          else collectPaths_loop env excludePathPattern patternRegex paths)"

definition collectPatternMatchingFiles ::
  "'cp collector_env \<Rightarrow> File \<Rightarrow> string \<Rightarrow> string list \<times> go_error option"
where
  "collectPatternMatchingFiles env fileData rootPath =
     (case ToCommonParams env fileData of
        (fileParams, Some err) \<Rightarrow> ([], Some err)
      | (fileParams, None) \<Rightarrow>
     (let excludePathPattern = PrepareExcludePathPattern env fileParams
      in case regexp_Compile env (Pattern fileData) of
        (patternRegex, Some err) \<Rightarrow> ([], Some err)
      | (patternRegex, None) \<Rightarrow>
     (case IsRecursive env fileData True of
        (recursive, Some err) \<Rightarrow> ([], Some err)
      | (recursive, None) \<Rightarrow>
     (case GetPaths env rootPath recursive False False of
        (paths, Some err) \<Rightarrow> ([], Some err)
      | (paths, None) \<Rightarrow> collectPaths_loop env excludePathPattern patternRegex paths))))"

definition collectFilesForIndexing ::
  "'cp collector_env \<Rightarrow> File \<Rightarrow> string list \<times> go_error option"
where
  "collectFilesForIndexing env fileData0 =
     (let fileData = fileData0\<lparr>Pattern := ReplaceTildeWithUserHome env (Pattern fileData0)\<rparr>;
          patternType = GetPatternType env fileData
      in case GetRootPath env (Pattern fileData) (Target fileData) patternType False of
        (rootPath, Some err) \<Rightarrow> ([], Some err)
      | (rootPath, None) \<Rightarrow>
     (case IsDirExists env rootPath False of
        (isDir, Some err) \<Rightarrow> ([], Some err)
      | (isDir, None) \<Rightarrow>
          if \<not> isDir then ([rootPath], None)
          else collectPatternMatchingFiles env
                 (fileData\<lparr>Pattern := ConvertLocalPatternToRegexp env (Pattern fileData) patternType\<rparr>)
                 rootPath))"

subsection \<open>The producer goroutine\<close>

text \<open>
  \<^verbatim>\<open>prepareScanTasks\<close> starts a goroutine that iterates over the file-spec groups. What the
  goroutine does to the state it shares with the workers is a sequence of events, in
  program order; the pipeline below executes them one at a time, interleaved with the
  steps of the workers.

  The source is written for a Go version in which the variable of a \<^verbatim>\<open>for ... range\<close>
  loop is one variable for all iterations (the semantics before Go 1.22): every iteration
  assigns the next element to the same variable. \<^verbatim>\<open>&fileGroup\<close>, which
  \<^verbatim>\<open>createIndexerHandlerFunc\<close> receives as \<^verbatim>\<open>file\<close> and which the task closures capture, is
  therefore the same address in every iteration.
\<close>

type_synonym addr = nat

definition fileGroup_addr :: addr where
  \<comment> \<open>the address of the loop variable \<^verbatim>\<open>fileGroup\<close>\<close>
  "fileGroup_addr = 0"

datatype producer_event =
    AssignLoopVar File         \<comment> \<open>\<^verbatim>\<open>fileGroup = scanCmd.spec.Files[i]\<close> at the loop head\<close>
  | AddIndexTask string addr   \<comment> \<open>\<^verbatim>\<open>producer.AddTaskWithError(fileHandlerFunc(filePath), ...)\<close>\<close>
  | LogGroupError go_error     \<comment> \<open>\<^verbatim>\<open>log.Error(err)\<close>\<close>
  | AddGroupError go_error     \<comment> \<open>\<^verbatim>\<open>fileErrorsQueue.AddError(err)\<close>\<close>
  | ProducerDone               \<comment> \<open>the deferred \<^verbatim>\<open>fileProducer.Done()\<close>\<close>

definition fileGroup_events :: "'cp collector_env \<Rightarrow> File \<Rightarrow> producer_event list" where
  \<comment> \<open>one iteration of the loop: the handler closes over \<^verbatim>\<open>&fileGroup\<close>, the collector gets
      a copy of the group and calls the handler for every file, an error is logged and
      added to the queue\<close>
  "fileGroup_events env fileGroup =
     (case collectFilesForIndexing env fileGroup of
        (handled, err) \<Rightarrow>
          AssignLoopVar fileGroup
          # map (\<lambda>filePath. AddIndexTask filePath fileGroup_addr) handled
          @ (case err of
               None \<Rightarrow> []
             | Some e \<Rightarrow> [LogGroupError e, AddGroupError e]))"

fun fileGroups_events :: "'cp collector_env \<Rightarrow> File list \<Rightarrow> producer_event list" where
  "fileGroups_events env [] = []"
| "fileGroups_events env (fileGroup # rest) =
     fileGroup_events env fileGroup @ fileGroups_events env rest"

definition prepareScanTasks :: "'cp collector_env \<Rightarrow> ScanCommand \<Rightarrow> producer_event list" where
  "prepareScanTasks env scanCmd = fileGroups_events env (spec_Files scanCmd) @ [ProducerDone]"

subsection \<open>Indexing a file\<close>

text \<open>
  The indexer process, the JSON decoder, the call to Xray and the log prefix are outside
  the source file and are parameters of the model.
\<close>

record services_env =
  RunCmdOutput :: "string \<Rightarrow> string list \<Rightarrow> string \<times> go_error option"
  json_Unmarshal :: "string \<Rightarrow> GraphNode \<Rightarrow> GraphNode \<times> go_error option"
  RunScanGraphAndGetResults ::
    "XrayGraphScanParams \<Rightarrow> bool \<Rightarrow> bool \<Rightarrow> string \<Rightarrow> ScanResponse \<times> go_error option"
  GetLogMsgPrefix :: "nat \<Rightarrow> bool \<Rightarrow> string"

definition CheckError :: "go_error option \<Rightarrow> go_error option" where
  \<comment> \<open>\<^verbatim>\<open>errorutils.CheckError\<close> hands the error back\<close>
  "CheckError err = err"

definition indexFile_failure :: "string \<Rightarrow> go_error \<Rightarrow> string \<Rightarrow> go_error" where
  \<comment> \<open>\<^verbatim>\<open>errorutils.CheckErrorf("Xray indexer app failed indexing %s with %s: %s", ...)\<close>\<close>
  "indexFile_failure filePath err output =
     OtherError (''Xray indexer app failed indexing '' @ filePath @ '' with ''
                 @ Error_text err @ '': '' @ output)"

definition indexFile ::
  "services_env \<Rightarrow> ScanCommand \<Rightarrow> string \<Rightarrow> GraphNode option \<times> go_error option \<times> log_entry list"
where
  \<comment> \<open>the returned pointer (\<open>None\<close> is \<^verbatim>\<open>nil\<close>), the returned error, and what was logged\<close>
  "indexFile env scanCmd filePath =
     (let indexerResults = zero_GraphNode
      in case RunCmdOutput env (indexerPath scanCmd) [indexingCommand, filePath] of
        (output, Some err) \<Rightarrow>
          (case err of
             ExitError code text \<Rightarrow>
               if code = fileNotSupportedExitCode
               then (Some indexerResults, None,
                     [LogDebug (''File '' @ filePath @ '' is not supported by Xray indexer app.'')])
               else (None, Some (indexFile_failure filePath err output), [])
           | OtherError text \<Rightarrow> (None, Some (indexFile_failure filePath err output), []))
      | (output, None) \<Rightarrow>
          (case json_Unmarshal env output indexerResults of
             (parsed, err) \<Rightarrow> (Some parsed, CheckError err, [])))"

definition file_not_supported :: "go_error \<Rightarrow> bool" where
  \<comment> \<open>the test in \<^verbatim>\<open>indexFile\<close>: the error is an \<^verbatim>\<open>*exec.ExitError\<close> whose exit code is
      \<^verbatim>\<open>fileNotSupportedExitCode\<close>\<close>
  "file_not_supported err =
     (case err of
        ExitError code text \<Rightarrow> code = fileNotSupportedExitCode
      | OtherError text \<Rightarrow> False)"

subsection \<open>The pipeline\<close>

text \<open>
  The state shared by the goroutines of one run: the loop variable of the producer (in a
  store, since the task closures hold its address), the two pools, the two error queues,
  the per-worker result slots and the log; and the control state of the three
  goroutines: the producer (the events it still has to perform), the goroutine started by
  \<^verbatim>\<open>performScanTasks\<close>, and the caller of \<^verbatim>\<open>performScanTasks\<close>. \<open>requests\<close> records the
  parameters of every call to Xray, in the order of the calls. \<open>panicked\<close> is set when
  the program panics; nothing runs after that.
\<close>

datatype index_task = IndexTask string addr    \<comment> \<open>the closure's \<^verbatim>\<open>filePath\<close> and \<^verbatim>\<open>file\<close>\<close>

datatype scan_task = ScanTask GraphNode addr   \<comment> \<open>the closure's \<^verbatim>\<open>graph\<close> and \<^verbatim>\<open>file\<close>\<close>

datatype coordinator_pc =
    BeforeRunStage1    \<comment> \<open>the goroutine of \<^verbatim>\<open>performScanTasks\<close> has not yet called \<^verbatim>\<open>fileConsumer.Run()\<close>\<close>
  | InRunStage1        \<comment> \<open>blocked in \<^verbatim>\<open>fileConsumer.Run()\<close>: the indexing workers run\<close>
  | BeforeDoneStage2   \<comment> \<open>\<^verbatim>\<open>fileConsumer.Run()\<close> has returned\<close>
  | CoordinatorFinished  \<comment> \<open>\<^verbatim>\<open>indexedFileConsumer.Done()\<close> has been called\<close>

datatype caller_pc =
    BeforeRunStage2    \<comment> \<open>before \<^verbatim>\<open>indexedFileConsumer.Run()\<close>\<close>
  | InRunStage2        \<comment> \<open>blocked in \<^verbatim>\<open>indexedFileConsumer.Run()\<close>: the scan workers run\<close>
  | CallerReturned     \<comment> \<open>\<^verbatim>\<open>performScanTasks\<close> has returned\<close>

record pipeline =
  heap :: "addr \<Rightarrow> File option"
  producer :: "producer_event list"
  coordinator :: coordinator_pc
  caller :: caller_pc
  fileProducer :: "index_task Runner"
  indexedFileProducer :: "scan_task Runner"
  fileErrorsQueue :: ErrorsQueue
  indexedFileErrorsQueue :: ErrorsQueue
  resultsArr :: "ScanResponse list list"
  logs :: "log_entry list"
  requests :: "XrayGraphScanParams list"
  panicked :: "string option"

definition indexTaskFunc ::
  "services_env \<Rightarrow> ScanCommand \<Rightarrow> string \<Rightarrow> addr \<Rightarrow> nat \<Rightarrow> pipeline
     \<Rightarrow> (pipeline \<times> go_error option) option"
where
  \<comment> \<open>the task that \<^verbatim>\<open>createIndexerHandlerFunc(file, ...)(filePath)\<close> returns, run by worker
      \<open>threadId\<close>: the new state and the returned error; \<open>None\<close> while adding the scan
      task has to wait for room in the second pool\<close>
  "indexTaskFunc env scanCmd filePath file threadId p =
     (let logMsgPrefix = GetLogMsgPrefix env threadId False;
          p1 = p\<lparr>logs := logs p @ [LogInfo (logMsgPrefix @ ''Indexing file: '' @ filePath)]\<rparr>
      in case indexFile env scanCmd filePath of
        (graph, err, logged) \<Rightarrow>
     (let p2 = p1\<lparr>logs := logs p1 @ logged\<rparr>
      in case err of
        Some e \<Rightarrow> Some (p2, Some e)
      | None \<Rightarrow>
          (case graph of
             None \<Rightarrow> Some (p2\<lparr>panicked := Some ''nil pointer dereference''\<rparr>, None)
           | Some g \<Rightarrow>
               if node_Id g = [] then Some (p2, None)
               else (case AddTaskWithError (ScanTask g file) (indexedFileProducer p2) of
                       Blocks \<Rightarrow> None
                     | Panics text \<Rightarrow> Some (p2\<lparr>panicked := Some text\<rparr>, None)
                     | Proceeds r \<Rightarrow> Some (p2\<lparr>indexedFileProducer := r\<rparr>, None)))))"

definition scanTaskFunc ::
  "services_env \<Rightarrow> ScanCommand \<Rightarrow> string \<Rightarrow> GraphNode \<Rightarrow> addr \<Rightarrow> nat \<Rightarrow> pipeline
     \<Rightarrow> pipeline \<times> go_error option"
where
  \<comment> \<open>the inner \<^verbatim>\<open>taskFunc\<close>, run by worker \<open>threadId\<close> of the second pool; \<^verbatim>\<open>file.Target\<close> is
      read when the task runs\<close>
  "scanTaskFunc env scanCmd xrayVersion graph file threadId p =
     (case heap p file of
        None \<Rightarrow> (p\<lparr>panicked := Some ''nil pointer dereference''\<rparr>, None)
      | Some fileGroup \<Rightarrow>
     (let params = \<lparr>Graph = graph,
                    RepoPath = getXrayRepoPathFromTarget (Target fileGroup),
                    Watches = watches scanCmd,
                    ProjectKey = projectKey scanCmd,
                    ScanTypeTag = Binary\<rparr>;
          p1 = p\<lparr>requests := requests p @ [params]\<rparr>
      in case RunScanGraphAndGetResults env params (includeVulnerabilities scanCmd)
                (includeLicenses scanCmd) xrayVersion of
        (scanResults, Some err) \<Rightarrow>
          (p1\<lparr>logs := logs p1 @ [LogError (''Scanning '' @ node_Id graph
                                           @ '' failed with error: '' @ Error_text err)]\<rparr>,
           Some err)
      | (scanResults, None) \<Rightarrow>
          if threadId < length (resultsArr p1)
          then (p1\<lparr>resultsArr :=
                      (resultsArr p1)[threadId := resultsArr p1 ! threadId @ [scanResults]]\<rparr>,
                None)
          else (p1\<lparr>panicked := Some ''index out of range''\<rparr>, None)))"

subsection \<open>Steps of the goroutines\<close>

datatype action =
    Producer            \<comment> \<open>the producer goroutine performs its next event\<close>
  | Coordinator         \<comment> \<open>the goroutine of \<^verbatim>\<open>performScanTasks\<close> moves on\<close>
  | Caller              \<comment> \<open>the caller of \<^verbatim>\<open>performScanTasks\<close> moves on\<close>
  | IndexerTakes nat    \<comment> \<open>worker \<open>t\<close> of the first pool receives a task\<close>
  | IndexerRuns nat     \<comment> \<open>worker \<open>t\<close> of the first pool runs the task it holds\<close>
  | ScannerTakes nat    \<comment> \<open>worker \<open>t\<close> of the second pool receives a task\<close>
  | ScannerRuns nat     \<comment> \<open>worker \<open>t\<close> of the second pool runs the task it holds\<close>

definition producer_step :: "pipeline \<Rightarrow> pipeline option" where
  "producer_step p =
     (case producer p of
        [] \<Rightarrow> None
      | event # rest \<Rightarrow>
          (case event of
             AssignLoopVar fileGroup \<Rightarrow>
               Some (p\<lparr>producer := rest, heap := (heap p)(fileGroup_addr \<mapsto> fileGroup)\<rparr>)
           | AddIndexTask filePath file \<Rightarrow>
               (case AddTaskWithError (IndexTask filePath file) (fileProducer p) of
                  Blocks \<Rightarrow> None
                | Panics text \<Rightarrow> Some (p\<lparr>producer := rest, panicked := Some text\<rparr>)
                | Proceeds r \<Rightarrow> Some (p\<lparr>producer := rest, fileProducer := r\<rparr>))
           | LogGroupError err \<Rightarrow>
               Some (p\<lparr>producer := rest, logs := logs p @ [LogError (Error_text err)]\<rparr>)
           | AddGroupError err \<Rightarrow>
               Some (p\<lparr>producer := rest, fileErrorsQueue := AddError err (fileErrorsQueue p)\<rparr>)
           | ProducerDone \<Rightarrow>
               (case Done (fileProducer p) of
                  Blocks \<Rightarrow> None
                | Panics text \<Rightarrow> Some (p\<lparr>producer := rest, panicked := Some text\<rparr>)
                | Proceeds r \<Rightarrow> Some (p\<lparr>producer := rest, fileProducer := r\<rparr>))))"

definition coordinator_step :: "pipeline \<Rightarrow> pipeline option" where
  \<comment> \<open>\<^verbatim>\<open>go func() { fileConsumer.Run(); indexedFileConsumer.Done() }()\<close>\<close>
  "coordinator_step p =
     (case coordinator p of
        BeforeRunStage1 \<Rightarrow> Some (p\<lparr>coordinator := InRunStage1\<rparr>)
      | InRunStage1 \<Rightarrow>
          if Run_returns (fileProducer p) then Some (p\<lparr>coordinator := BeforeDoneStage2\<rparr>)
          else None
      | BeforeDoneStage2 \<Rightarrow>
          (case Done (indexedFileProducer p) of
             Blocks \<Rightarrow> None
           | Panics text \<Rightarrow> Some (p\<lparr>coordinator := CoordinatorFinished, panicked := Some text\<rparr>)
           | Proceeds r \<Rightarrow> Some (p\<lparr>coordinator := CoordinatorFinished, indexedFileProducer := r\<rparr>))
      | CoordinatorFinished \<Rightarrow> None)"

definition caller_step :: "pipeline \<Rightarrow> pipeline option" where
  \<comment> \<open>\<^verbatim>\<open>indexedFileConsumer.Run()\<close> in \<^verbatim>\<open>performScanTasks\<close>\<close>
  "caller_step p =
     (case caller p of
        BeforeRunStage2 \<Rightarrow> Some (p\<lparr>caller := InRunStage2\<rparr>)
      | InRunStage2 \<Rightarrow>
          if Run_returns (indexedFileProducer p) then Some (p\<lparr>caller := CallerReturned\<rparr>)
          else None
      | CallerReturned \<Rightarrow> None)"

definition indexer_takes :: "nat \<Rightarrow> pipeline \<Rightarrow> pipeline option" where
  \<comment> \<open>the workers of the first pool exist while \<^verbatim>\<open>fileConsumer.Run()\<close> is executing\<close>
  "indexer_takes t p =
     (if coordinator p = InRunStage1
      then (case take_task t (fileProducer p) of
              None \<Rightarrow> None
            | Some r \<Rightarrow> Some (p\<lparr>fileProducer := r\<rparr>))
      else None)"

definition indexer_runs :: "services_env \<Rightarrow> ScanCommand \<Rightarrow> nat \<Rightarrow> pipeline \<Rightarrow> pipeline option" where
  \<comment> \<open>the task's error goes to \<^verbatim>\<open>fileErrorsQueue.AddError\<close>, the handler that
      \<^verbatim>\<open>getAddTaskToProducerFunc\<close> gave with the task\<close>
  "indexer_runs env scanCmd t p =
     (if t < length (running (fileProducer p))
      then (case running (fileProducer p) ! t of
              None \<Rightarrow> None
            | Some (IndexTask filePath file) \<Rightarrow>
                (case indexTaskFunc env scanCmd filePath file t p of
                   None \<Rightarrow> None
                 | Some (p1, err) \<Rightarrow>
                     (let p2 = (case err of
                                  None \<Rightarrow> p1
                                | Some e \<Rightarrow> p1\<lparr>fileErrorsQueue := AddError e (fileErrorsQueue p1)\<rparr>)
                      in Some (p2\<lparr>fileProducer := finish_task t err (fileProducer p2)\<rparr>))))
      else None)"

definition scanner_takes :: "nat \<Rightarrow> pipeline \<Rightarrow> pipeline option" where
  \<comment> \<open>the workers of the second pool exist while \<^verbatim>\<open>indexedFileConsumer.Run()\<close> is executing\<close>
  "scanner_takes t p =
     (if caller p = InRunStage2
      then (case take_task t (indexedFileProducer p) of
              None \<Rightarrow> None
            | Some r \<Rightarrow> Some (p\<lparr>indexedFileProducer := r\<rparr>))
      else None)"

definition scanner_runs ::
  "services_env \<Rightarrow> ScanCommand \<Rightarrow> string \<Rightarrow> nat \<Rightarrow> pipeline \<Rightarrow> pipeline option"
where
  \<comment> \<open>the task's error goes to \<^verbatim>\<open>errorsQueue.AddError\<close> of \<^verbatim>\<open>createIndexerHandlerFunc\<close>, which
      is the queue of the second pool\<close>
  "scanner_runs env scanCmd xrayVersion t p =
     (if t < length (running (indexedFileProducer p))
      then (case running (indexedFileProducer p) ! t of
              None \<Rightarrow> None
            | Some (ScanTask graph file) \<Rightarrow>
                (case scanTaskFunc env scanCmd xrayVersion graph file t p of
                   (p1, err) \<Rightarrow>
                     (let p2 = (case err of
                                  None \<Rightarrow> p1
                                | Some e \<Rightarrow>
                                    p1\<lparr>indexedFileErrorsQueue :=
                                         AddError e (indexedFileErrorsQueue p1)\<rparr>)
                      in Some (p2\<lparr>indexedFileProducer :=
                                    finish_task t err (indexedFileProducer p2)\<rparr>))))
      else None)"

definition step ::
  "services_env \<Rightarrow> ScanCommand \<Rightarrow> string \<Rightarrow> action \<Rightarrow> pipeline \<Rightarrow> pipeline option"
where
  \<comment> \<open>one step of one goroutine; \<open>None\<close> when that goroutine cannot move\<close>
  "step env scanCmd xrayVersion a p =
     (if panicked p \<noteq> None then None
      else case a of
        Producer \<Rightarrow> producer_step p
      | Coordinator \<Rightarrow> coordinator_step p
      | Caller \<Rightarrow> caller_step p
      | IndexerTakes t \<Rightarrow> indexer_takes t p
      | IndexerRuns t \<Rightarrow> indexer_runs env scanCmd t p
      | ScannerTakes t \<Rightarrow> scanner_takes t p
      | ScannerRuns t \<Rightarrow> scanner_runs env scanCmd xrayVersion t p)"

fun exec ::
  "services_env \<Rightarrow> ScanCommand \<Rightarrow> string \<Rightarrow> action list \<Rightarrow> pipeline \<Rightarrow> pipeline option"
where
  \<comment> \<open>the execution that a schedule describes; \<open>None\<close> when the schedule asks a goroutine
      to move that cannot\<close>
  "exec env scanCmd xrayVersion [] p = Some p"
| "exec env scanCmd xrayVersion (a # schedule) p =
     (case step env scanCmd xrayVersion a p of
        None \<Rightarrow> None
      | Some p' \<Rightarrow> exec env scanCmd xrayVersion schedule p')"

subsection \<open>The command\<close>

text \<open>
  The Xray service manager, the version check, the download of the indexer and the
  printing of the results are outside the source file and are parameters of the model.
\<close>

record run_env =
  CreateXrayServiceManagerAndGetVersion :: "string \<times> go_error option"
  GraphScanMinXrayVersion :: string
  ValidateXrayMinimumVersion :: "string \<Rightarrow> string \<Rightarrow> go_error option"
  DownloadIndexerIfNeeded :: "string \<Rightarrow> string \<times> go_error option"
  PrintScanResults :: "ScanResponse list \<Rightarrow> bool \<Rightarrow> bool \<Rightarrow> bool \<Rightarrow> bool \<Rightarrow> go_error option"
  CheckIfFailBuild :: "ScanResponse list \<Rightarrow> bool"
  NewFailBuildError :: go_error

definition pool_threads :: "ScanCommand \<Rightarrow> int" where
  \<comment> \<open>\<^verbatim>\<open>threads := 1; if scanCmd.threads > 1 { threads = scanCmd.threads }\<close>\<close>
  "pool_threads scanCmd = (if 1 < threads scanCmd then threads scanCmd else 1)"

definition initial_pipeline :: "'cp collector_env \<Rightarrow> ScanCommand \<Rightarrow> pipeline" where
  \<comment> \<open>the state that \<^verbatim>\<open>Run\<close> sets up before the goroutines move: the result slots, the two
      pools and the two queues as \<^verbatim>\<open>Run\<close> creates them, the producer goroutine of
      \<^verbatim>\<open>prepareScanTasks\<close> and the two goroutines of \<^verbatim>\<open>performScanTasks\<close> at their start\<close>
  "initial_pipeline cenv scanCmd =
     \<lparr>heap = Map.empty,
      producer = prepareScanTasks cenv scanCmd,
      coordinator = BeforeRunStage1,
      caller = BeforeRunStage2,
      fileProducer = NewRunner (threads scanCmd) 20000 False,
      indexedFileProducer = NewRunner (threads scanCmd) 20000 False,
      fileErrorsQueue = NewErrorsQueue 1,
      indexedFileErrorsQueue = NewErrorsQueue 1,
      resultsArr = replicate (nat (pool_threads scanCmd)) [],
      logs = [],
      requests = [],
      panicked = None\<rparr>"

fun handle_arr ::
  "ScanResponse list \<Rightarrow> ScanResponse list \<times> ScanCommand \<Rightarrow> ScanResponse list \<times> ScanCommand"
where
  \<comment> \<open>the inner loop \<^verbatim>\<open>for _, res := range arr\<close>\<close>
  "handle_arr [] state = state"
| "handle_arr (res # arr) (flatResults, scanCmd) =
     handle_arr arr
       (flatResults @ [res],
        if 0 < length (Violations res) \<or> 0 < length (Vulnerabilities res)
        then scanCmd\<lparr>scanPassed := False\<rparr> else scanCmd)"

fun handle_resultsArr ::
  "ScanResponse list list \<Rightarrow> ScanResponse list \<times> ScanCommand
     \<Rightarrow> ScanResponse list \<times> ScanCommand"
where
  \<comment> \<open>the outer loop \<^verbatim>\<open>for _, arr := range resultsArr\<close>\<close>
  "handle_resultsArr [] state = state"
| "handle_resultsArr (arr # rest) state = handle_resultsArr rest (handle_arr arr state)"

definition handle_results :: "ScanCommand \<Rightarrow> pipeline \<Rightarrow> ScanResponse list \<times> ScanCommand" where
  \<comment> \<open>\<^verbatim>\<open>scanCmd.scanPassed = true; flatResults := []; for ...\<close>\<close>
  "handle_results scanCmd p =
     handle_resultsArr (resultsArr p) ([], scanCmd\<lparr>scanPassed := True\<rparr>)"

datatype run_event =
    TasksPerformed                  \<comment> \<open>\<^verbatim>\<open>performScanTasks\<close> has returned\<close>
  | ResultsPrinted "ScanResponse list"
  | FailBuildChecked
  | FileErrorsRead                  \<comment> \<open>\<^verbatim>\<open>fileProducerErrorsQueue.GetError()\<close>\<close>
  | IndexedFileErrorsRead           \<comment> \<open>\<^verbatim>\<open>indexedFileProducerErrorsQueue.GetError()\<close>\<close>
  | CompletionLogged                \<comment> \<open>\<^verbatim>\<open>log.Info("Scan completed successfully.")\<close>\<close>

record run_outcome =
  returned :: "go_error option"   \<comment> \<open>the error \<^verbatim>\<open>Run\<close> returns, before the deferred wrapping\<close>
  command :: ScanCommand          \<comment> \<open>the command after the run\<close>
  events :: "run_event list"      \<comment> \<open>what \<^verbatim>\<open>Run\<close> did after starting the pipeline, in order\<close>

definition Run_after_tasks :: "run_env \<Rightarrow> ScanCommand \<Rightarrow> pipeline \<Rightarrow> run_outcome" where
  \<comment> \<open>\<^verbatim>\<open>Run\<close> from \<^verbatim>\<open>// Handle results\<close> on, in the state \<open>p\<close> in which \<^verbatim>\<open>performScanTasks\<close>
      returned\<close>
  "Run_after_tasks renv scanCmd0 p =
     (case handle_results scanCmd0 p of
        (flatResults, scanCmd) \<Rightarrow>
     (case PrintScanResults renv flatResults (outputFormat scanCmd = Table)
             (includeVulnerabilities scanCmd) (includeLicenses scanCmd) True of
        Some err \<Rightarrow>
          \<lparr>returned = Some err, command = scanCmd,
           events = [TasksPerformed, ResultsPrinted flatResults]\<rparr>
      | None \<Rightarrow>
          if fail scanCmd \<and> includeVulnerabilities scanCmd = False
             \<and> CheckIfFailBuild renv flatResults
          then \<lparr>returned = Some (NewFailBuildError renv), command = scanCmd,
                events = [TasksPerformed, ResultsPrinted flatResults, FailBuildChecked]\<rparr>
          else
            (let checked = (if fail scanCmd \<and> includeVulnerabilities scanCmd = False
                            then [FailBuildChecked] else [])
             in case GetError (fileErrorsQueue p) of
               (Some err, q1) \<Rightarrow>
                 \<lparr>returned = Some err, command = scanCmd,
                  events = [TasksPerformed, ResultsPrinted flatResults] @ checked
                           @ [FileErrorsRead]\<rparr>
             | (None, q1) \<Rightarrow>
                 (case GetError (indexedFileErrorsQueue p) of
                    (Some err, q2) \<Rightarrow>
                      \<lparr>returned = Some err, command = scanCmd,
                       events = [TasksPerformed, ResultsPrinted flatResults] @ checked
                                @ [FileErrorsRead, IndexedFileErrorsRead]\<rparr>
                  | (None, q2) \<Rightarrow>
                      \<lparr>returned = None, command = scanCmd,
                       events = [TasksPerformed, ResultsPrinted flatResults] @ checked
                                @ [FileErrorsRead, IndexedFileErrorsRead,
                                   CompletionLogged]\<rparr>))))"

definition Run_deferred :: "run_outcome \<Rightarrow> run_outcome" where
  \<comment> \<open>\<^verbatim>\<open>defer func() { if err != nil { err = errors.New("Scan command failed. " + err.Error()) } }()\<close>\<close>
  "Run_deferred out =
     (case returned out of
        None \<Rightarrow> out
      | Some err \<Rightarrow>
          out\<lparr>returned := Some (OtherError (''Scan command failed. '' @ Error_text err))\<rparr>)"

datatype run_result =
    Returns run_outcome   \<comment> \<open>\<^verbatim>\<open>Run\<close> returns\<close>
  | Crashes string        \<comment> \<open>a goroutine panicked\<close>

definition Run ::
  "run_env \<Rightarrow> 'cp collector_env \<Rightarrow> services_env \<Rightarrow> action list \<Rightarrow> ScanCommand
     \<Rightarrow> run_result option"
where
  \<comment> \<open>\<^verbatim>\<open>Run\<close> under a schedule of the goroutines it starts; \<open>None\<close> when the schedule is
      not one of a complete run: it asks a goroutine to move that cannot, or it ends
      before \<^verbatim>\<open>performScanTasks\<close> returns\<close>
  "Run renv cenv senv schedule scanCmd0 =
     (case CreateXrayServiceManagerAndGetVersion renv of
        (xrayVersion, Some err) \<Rightarrow>
          Some (Returns (Run_deferred \<lparr>returned = Some err, command = scanCmd0, events = []\<rparr>))
      | (xrayVersion, None) \<Rightarrow>
     (case ValidateXrayMinimumVersion renv xrayVersion (GraphScanMinXrayVersion renv) of
        Some err \<Rightarrow>
          Some (Returns (Run_deferred \<lparr>returned = Some err, command = scanCmd0, events = []\<rparr>))
      | None \<Rightarrow>
     (case DownloadIndexerIfNeeded renv xrayVersion of
        (path, downloaded) \<Rightarrow>
     (let scanCmd = scanCmd0\<lparr>indexerPath := path\<rparr>
      in case downloaded of
        Some err \<Rightarrow>
          Some (Returns (Run_deferred \<lparr>returned = Some err, command = scanCmd, events = []\<rparr>))
      | None \<Rightarrow>
          (case exec senv scanCmd xrayVersion schedule (initial_pipeline cenv scanCmd) of
             None \<Rightarrow> None
           | Some p \<Rightarrow>
               (case panicked p of
                  Some text \<Rightarrow> Some (Crashes text)
                | None \<Rightarrow>
                    if caller p = CallerReturned
                    then Some (Returns (Run_deferred (Run_after_tasks renv scanCmd p)))
                    else None))))))"

subsection \<open>Invariants of the pipeline\<close>

fun index_task_file :: "index_task \<Rightarrow> addr" where
  "index_task_file (IndexTask filePath file) = file"

fun scan_task_file :: "scan_task \<Rightarrow> addr" where
  "scan_task_file (ScanTask graph file) = file"

definition holds :: "'a Runner \<Rightarrow> 'a set" where
  \<comment> \<open>the tasks a pool holds: those in its backlog and those being executed\<close>
  "holds r = set (tasks r) \<union> Option.these (set (running r))"

fun unassigned_ok :: "producer_event list \<Rightarrow> bool" where
  \<comment> \<open>no task is added before the loop variable is assigned\<close>
  "unassigned_ok [] = True"
| "unassigned_ok (AssignLoopVar fileGroup # rest) = True"
| "unassigned_ok (AddIndexTask filePath file # rest) = False"
| "unassigned_ok (event # rest) = unassigned_ok rest"

fun captures_loop_var :: "producer_event \<Rightarrow> bool" where
  "captures_loop_var (AddIndexTask filePath file) = (file = fileGroup_addr)"
| "captures_loop_var event = True"

definition inv_config :: "ScanCommand \<Rightarrow> pipeline \<Rightarrow> bool" where
  \<comment> \<open>the pools, queues and result slots keep the sizes \<^verbatim>\<open>Run\<close> created them with\<close>
  "inv_config scanCmd p =
     (length (running (fileProducer p)) = nat (pool_threads scanCmd) \<and>
      length (running (indexedFileProducer p)) = nat (pool_threads scanCmd) \<and>
      \<not> failFast (fileProducer p) \<and> \<not> failFast (indexedFileProducer p) \<and>
      \<not> cancelled (fileProducer p) \<and> \<not> cancelled (indexedFileProducer p) \<and>
      capacity (fileProducer p) = 20000 \<and> capacity (indexedFileProducer p) = 20000 \<and>
      length (resultsArr p) = nat (pool_threads scanCmd) \<and>
      queueSize (fileErrorsQueue p) = 1 \<and> queueSize (indexedFileErrorsQueue p) = 1 \<and>
      length (errorsChan (fileErrorsQueue p)) \<le> 1 \<and>
      length (errorsChan (indexedFileErrorsQueue p)) \<le> 1)"

definition inv_producer :: "pipeline \<Rightarrow> bool" where
  \<comment> \<open>the remaining events of the producer end with the one \<^verbatim>\<open>Done()\<close>, which has happened
      exactly when no event remains; the loop variable is assigned before a task is added\<close>
  "inv_producer p =
     (list_all captures_loop_var (producer p) \<and>
      (heap p fileGroup_addr = None \<longrightarrow> unassigned_ok (producer p)) \<and>
      (if closed (fileProducer p) then producer p = []
       else producer p \<noteq> [] \<and> last (producer p) = ProducerDone
            \<and> ProducerDone \<notin> set (butlast (producer p))))"

definition inv_files :: "pipeline \<Rightarrow> bool" where
  \<comment> \<open>the \<^verbatim>\<open>file\<close> pointer of every task points to an allocated variable\<close>
  "inv_files p =
     ((\<forall>task \<in> holds (fileProducer p). heap p (index_task_file task) \<noteq> None) \<and>
      (\<forall>task \<in> holds (indexedFileProducer p). heap p (scan_task_file task) \<noteq> None))"

definition inv_control :: "pipeline \<Rightarrow> bool" where
  \<comment> \<open>where the goroutines of \<^verbatim>\<open>performScanTasks\<close> are, against the state of the pools\<close>
  "inv_control p =
     ((coordinator p = BeforeRunStage1 \<longrightarrow> idle (fileProducer p)) \<and>
      (coordinator p = BeforeDoneStage2 \<or> coordinator p = CoordinatorFinished
         \<longrightarrow> drained (fileProducer p)) \<and>
      (closed (indexedFileProducer p) \<longleftrightarrow> coordinator p = CoordinatorFinished) \<and>
      (caller p = BeforeRunStage2 \<longrightarrow> idle (indexedFileProducer p)) \<and>
      (caller p = CallerReturned \<longrightarrow> drained (indexedFileProducer p)))"

definition pipeline_inv :: "ScanCommand \<Rightarrow> pipeline \<Rightarrow> bool" where
  "pipeline_inv scanCmd p =
     (inv_config scanCmd p \<and> inv_producer p \<and> inv_files p \<and> inv_control p
      \<and> panicked p = None)"

subsection \<open>The work that is left\<close>

definition busy :: "'a Runner \<Rightarrow> nat" where
  \<comment> \<open>the number of workers that are executing a task\<close>
  "busy r = length (filter (\<lambda>w. w \<noteq> None) (running r))"

fun coordinator_rank :: "coordinator_pc \<Rightarrow> nat" where
  "coordinator_rank BeforeRunStage1 = 3"
| "coordinator_rank InRunStage1 = 2"
| "coordinator_rank BeforeDoneStage2 = 1"
| "coordinator_rank CoordinatorFinished = 0"

fun caller_rank :: "caller_pc \<Rightarrow> nat" where
  "caller_rank BeforeRunStage2 = 2"
| "caller_rank InRunStage2 = 1"
| "caller_rank CallerReturned = 0"

definition work :: "pipeline \<Rightarrow> nat" where
  \<comment> \<open>a bound on the number of steps the goroutines can still make: an event of the
      producer can become a task of the first pool, which is received, then executed, and
      can become a task of the second pool, which is received, then executed\<close>
  "work p =
     5 * length (producer p)
     + 4 * length (tasks (fileProducer p)) + 3 * busy (fileProducer p)
     + 2 * length (tasks (indexedFileProducer p)) + busy (indexedFileProducer p)
     + coordinator_rank (coordinator p) + caller_rank (caller p)"

subsection \<open>A concrete run\<close>

text \<open>
  Two file-spec groups with one file each and different targets, an indexer that
  identifies a file by its path, and an Xray that finds nothing. The theorems below
  evaluate the model on it.
\<close>

definition example_group1 :: File where
  "example_group1 = \<lparr>Pattern = ''a/x.jar'', Target = ''repo1/''\<rparr>"

definition example_group2 :: File where
  "example_group2 = \<lparr>Pattern = ''b/y.jar'', Target = ''repo2/dir/y.jar''\<rparr>"

definition example_collector :: "unit collector_env" where
  \<comment> \<open>every pattern is the path of an existing file\<close>
  "example_collector =
     \<lparr>ReplaceTildeWithUserHome = (\<lambda>pattern. pattern),
      GetPatternType = (\<lambda>fileData. WildCardPattern),
      GetRootPath = (\<lambda>pattern target patternType preserveSymLink. (pattern, None)),
      IsDirExists = (\<lambda>path preserveSymLink. (False, None)),
      ConvertLocalPatternToRegexp = (\<lambda>pattern patternType. pattern),
      ToCommonParams = (\<lambda>fileData. ((), None)),
      PrepareExcludePathPattern = (\<lambda>params. []),
      regexp_Compile = (\<lambda>pattern. (pattern, None)),
      IsRecursive = (\<lambda>fileData defaultValue. (defaultValue, None)),
      GetPaths = (\<lambda>rootPath recursive includeDirs preserveSymLink. ([], None)),
      PrepareAndFilterPaths =
        (\<lambda>path excludePathPattern preserveSymLink includeDirs patternRegex. ([], False, None))\<rparr>"

definition example_services :: services_env where
  \<comment> \<open>the indexer prints the path of the file, which becomes the \<^verbatim>\<open>Id\<close> of the graph\<close>
  "example_services =
     \<lparr>RunCmdOutput = (\<lambda>execPath args. (last args, None)),
      json_Unmarshal = (\<lambda>output node. (node\<lparr>node_Id := output\<rparr>, None)),
      RunScanGraphAndGetResults =
        (\<lambda>params includeVulnerabilities includeLicenses xrayVersion.
           (\<lparr>ScanId = node_Id (Graph params), Violations = [], Vulnerabilities = []\<rparr>, None)),
      GetLogMsgPrefix = (\<lambda>threadId visible. [])\<rparr>"

definition example_command :: ScanCommand where
  "example_command =
     \<lparr>spec_Files = [example_group1, example_group2],
      threads = 1,
      indexerPath = ''indexer'',
      outputFormat = Table,
      projectKey = [],
      watches = [],
      includeVulnerabilities = True,
      includeLicenses = False,
      scanPassed = False,
      fail = True\<rparr>"

definition example_schedule :: "action list" where
  \<comment> \<open>the producer walks both groups, then the files are indexed, then they are scanned\<close>
  "example_schedule =
     [Producer, Producer, Producer, Producer, Producer,
      Coordinator, IndexerTakes 0, IndexerRuns 0, IndexerTakes 0, IndexerRuns 0,
      Coordinator, Coordinator,
      Caller, ScannerTakes 0, ScannerRuns 0, ScannerTakes 0, ScannerRuns 0, Caller]"

definition example_run_env :: run_env where
  "example_run_env =
     \<lparr>CreateXrayServiceManagerAndGetVersion = (''3.40.0'', None),
      GraphScanMinXrayVersion = ''3.29.0'',
      ValidateXrayMinimumVersion = (\<lambda>current minimum. None),
      DownloadIndexerIfNeeded = (\<lambda>xrayVersion. (''indexer'', None)),
      PrintScanResults = (\<lambda>results isTable includeVulnerabilities includeLicenses isBinary. None),
      CheckIfFailBuild = (\<lambda>results. False),
      NewFailBuildError = OtherError ''build failed''\<rparr>"

text \<open>
  A second run over the same two files: the indexer fails on the first file with exit
  status 1, and Xray fails on the graph of the second file.
\<close>

definition failing_services :: services_env where
  "failing_services =
     \<lparr>RunCmdOutput =
        (\<lambda>execPath args. if last args = ''a/x.jar''
                          then (''broken'', Some (ExitError 1 ''exit status 1''))
                          else (last args, None)),
      json_Unmarshal = (\<lambda>output node. (node\<lparr>node_Id := output\<rparr>, None)),
      RunScanGraphAndGetResults =
        (\<lambda>params includeVulnerabilities includeLicenses xrayVersion.
           (\<lparr>ScanId = [], Violations = [], Vulnerabilities = []\<rparr>,
            Some (OtherError ''server unreachable''))),
      GetLogMsgPrefix = (\<lambda>threadId visible. [])\<rparr>"

definition failing_schedule :: "action list" where
  "failing_schedule =
     [Producer, Producer, Producer, Producer, Producer,
      Coordinator, IndexerTakes 0, IndexerRuns 0, IndexerTakes 0, IndexerRuns 0,
      Coordinator, Coordinator,
      Caller, ScannerTakes 0, ScannerRuns 0, Caller]"

text \<open>A collector that cannot resolve the root path of the first group.\<close>

definition failing_collector :: "unit collector_env" where
  "failing_collector =
     example_collector
       \<lparr>GetRootPath :=
          (\<lambda>pattern target patternType preserveSymLink.
             if pattern = ''a/x.jar'' then ([], Some (OtherError ''no such root''))
             else (pattern, None))\<rparr>"

definition group_error_schedule :: "action list" where
  \<comment> \<open>the producer reports the error of the first group and walks the second group, then
      the file of the second group is indexed and scanned\<close>
  "group_error_schedule =
     [Producer, Producer, Producer, Producer, Producer, Producer,
      Coordinator, IndexerTakes 0, IndexerRuns 0, Coordinator, Coordinator,
      Caller, ScannerTakes 0, ScannerRuns 0, Caller]"

text \<open>An indexer that does not support any file: it exits with status 3.\<close>

definition unsupported_services :: services_env where
  "unsupported_services =
     example_services
       \<lparr>RunCmdOutput := (\<lambda>execPath args. ([], Some (ExitError 3 ''exit status 3'')))\<rparr>"

text \<open>
  Runs in which two items of one stage fail: an indexer that fails on every file, an Xray
  that fails on every graph, and a collector that cannot resolve the root path of any
  group. Each error names its item.
\<close>

definition broken_indexer_services :: services_env where
  "broken_indexer_services =
     example_services
       \<lparr>RunCmdOutput := (\<lambda>execPath args. (''broken'', Some (ExitError 1 ''exit status 1'')))\<rparr>"

definition broken_indexer_schedule :: "action list" where
  \<comment> \<open>both files are indexed, no graph reaches the second pool\<close>
  "broken_indexer_schedule =
     [Producer, Producer, Producer, Producer, Producer,
      Coordinator, IndexerTakes 0, IndexerRuns 0, IndexerTakes 0, IndexerRuns 0,
      Coordinator, Coordinator, Caller, Caller]"

definition unreachable_xray_services :: services_env where
  "unreachable_xray_services =
     example_services
       \<lparr>RunScanGraphAndGetResults :=
          (\<lambda>params includeVulnerabilities includeLicenses xrayVersion.
             (\<lparr>ScanId = [], Violations = [], Vulnerabilities = []\<rparr>,
              Some (OtherError (''cannot scan '' @ node_Id (Graph params)))))\<rparr>"

definition unresolvable_collector :: "unit collector_env" where
  "unresolvable_collector =
     example_collector
       \<lparr>GetRootPath :=
          (\<lambda>pattern target patternType preserveSymLink.
             ([], Some (OtherError (''no root for '' @ pattern))))\<rparr>"

definition unresolvable_schedule :: "action list" where
  \<comment> \<open>the producer reports the errors of both groups, no file reaches the first pool\<close>
  "unresolvable_schedule =
     [Producer, Producer, Producer, Producer, Producer, Producer, Producer,
      Coordinator, Coordinator, Coordinator, Caller, Caller]"

text \<open>
  Collectors for which both groups are directories: one cannot compile the pattern of the
  first group, the other finds two files in every directory and cannot read the second
  file of the first group.
\<close>

definition bad_pattern_collector :: "unit collector_env" where
  "bad_pattern_collector =
     example_collector
       \<lparr>IsDirExists := (\<lambda>path preserveSymLink. (True, None)),
        regexp_Compile :=
          (\<lambda>pattern. if pattern = ''a/x.jar'' then ([], Some (OtherError ''bad pattern''))
                     else (pattern, None))\<rparr>"

definition bad_path_collector :: "unit collector_env" where
  "bad_path_collector =
     example_collector
       \<lparr>IsDirExists := (\<lambda>path preserveSymLink. (True, None)),
        GetPaths :=
          (\<lambda>rootPath recursive includeDirs preserveSymLink.
             ([rootPath @ ''/1'', rootPath @ ''/2''], None)),
        PrepareAndFilterPaths :=
          (\<lambda>path excludePathPattern preserveSymLink includeDirs patternRegex.
             if path = ''a/x.jar/2'' then ([], False, Some (OtherError ''unreadable''))
             else ([path], False, None))\<rparr>"

section \<open>Verification\<close>

subsection \<open>Properties of the repository path\<close>

lemma LastIndexByte_range: "- 1 \<le> LastIndexByte s c \<and> LastIndexByte s c < int (length s)"
  by (induction s) (auto simp: Let_def)

lemma LastIndexByte_absent: "c \<notin> set s \<Longrightarrow> LastIndexByte s c = - 1"
  by (induction s) (auto simp: Let_def)

lemma LastIndexByte_present: "c \<in> set s \<Longrightarrow> 0 \<le> LastIndexByte s c"
proof (induction s)
  case Nil
  then show ?case by simp
next
  case (Cons x xs)
  show ?case
  proof (cases "c \<in> set xs")
    case True
    with Cons.IH show ?thesis by (simp add: Let_def)
  next
    case False
    with Cons.prems have "x = c" by simp
    then show ?thesis by (simp add: Let_def)
  qed
qed

lemma take_LastIndexByte:
  "take (nat (LastIndexByte s c + 1)) s = rev (dropWhile (\<lambda>x. x \<noteq> c) (rev s))"
proof (induction s)
  case Nil
  show ?case by simp
next
  case (Cons x xs)
  show ?case
  proof (cases "c \<in> set xs")
    case True
    then have nn: "0 \<le> LastIndexByte xs c" by (rule LastIndexByte_present)
    then have "nat (LastIndexByte xs c + 1 + 1) = Suc (nat (LastIndexByte xs c + 1))"
      by simp
    moreover have "dropWhile (\<lambda>x. x \<noteq> c) (rev xs @ [x]) = dropWhile (\<lambda>x. x \<noteq> c) (rev xs) @ [x]"
      using True by (simp add: dropWhile_append1)
    ultimately show ?thesis using nn Cons.IH by (simp add: Let_def)
  next
    case False
    then have absent: "LastIndexByte xs c = - 1" by (rule LastIndexByte_absent)
    have "dropWhile (\<lambda>x. x \<noteq> c) (rev xs @ [x]) = dropWhile (\<lambda>x. x \<noteq> c) [x]"
    proof (rule dropWhile_append2)
      fix y assume "y \<in> set (rev xs)"
      with False show "y \<noteq> c" by auto
    qed
    then show ?thesis using absent by (simp add: Let_def)
  qed
qed

text \<open>
  C7. \<^verbatim>\<open>getXrayRepoPathFromTarget\<close> returns a target that ends with the separator
  unchanged, and any other target cut after its last separator, so that the trailing
  file name is removed; the two examples of the specification are instances.
\<close>

theorem getXrayRepoPathFromTarget_strips_file:
  "(HasSuffix target ''/'' \<longrightarrow> getXrayRepoPathFromTarget target = target) \<and>
   (\<not> HasSuffix target ''/'' \<longrightarrow> getXrayRepoPathFromTarget target = strip_filename target) \<and>
   getXrayRepoPathFromTarget ''repo/a/b/'' = ''repo/a/b/'' \<and>
   getXrayRepoPathFromTarget ''repo/a/b/file.txt'' = ''repo/a/b/''"
proof -
  have "getXrayRepoPathFromTarget ''repo/a/b/'' = ''repo/a/b/''"
    by (simp add: getXrayRepoPathFromTarget_def HasSuffix_def)
  moreover have "getXrayRepoPathFromTarget ''repo/a/b/file.txt'' = ''repo/a/b/''"
    by (simp add: getXrayRepoPathFromTarget_def HasSuffix_def LastIndex_def Let_def)
  ultimately show ?thesis
    by (simp add: getXrayRepoPathFromTarget_def strip_filename_def LastIndex_def
        take_LastIndexByte)
qed

theorem getXrayRepoPathFromTarget_strips_file_witness:
  "HasSuffix ''repo/'' ''/'' \<and> getXrayRepoPathFromTarget ''repo/'' = ''repo/'' \<and>
   \<not> HasSuffix ''repo/a.jar'' ''/'' \<and>
   getXrayRepoPathFromTarget ''repo/a.jar'' = strip_filename ''repo/a.jar'' \<and>
   strip_filename ''repo/a.jar'' = ''repo/''"
  using getXrayRepoPathFromTarget_strips_file [of "''repo/''"]
    getXrayRepoPathFromTarget_strips_file [of "''repo/a.jar''"]
  by (simp add: HasSuffix_def strip_filename_def)
subsection \<open>The invariants hold in every reachable state\<close>

lemma these_replicate_None: "Option.these (set (replicate n None)) = {}"
  by (auto simp: Option.these_def)

lemma idle_NewRunner: "idle (NewRunner n cap ff)"
  by (simp add: idle_def NewRunner_def Let_def list_all_iff)

lemma holds_NewRunner: "holds (NewRunner n cap ff) = {}"
  by (simp add: holds_def NewRunner_def Let_def these_replicate_None)

lemma captures_fileGroup_events: "list_all captures_loop_var (fileGroup_events env g)"
  by (auto simp: fileGroup_events_def list_all_iff split: prod.splits option.splits)

lemma captures_fileGroups_events: "list_all captures_loop_var (fileGroups_events env gs)"
  by (induction gs) (simp_all add: captures_fileGroup_events)

lemma Done_notin_fileGroup_events: "ProducerDone \<notin> set (fileGroup_events env g)"
  by (auto simp: fileGroup_events_def split: prod.splits option.splits)

lemma Done_notin_fileGroups_events: "ProducerDone \<notin> set (fileGroups_events env gs)"
  by (induction gs) (simp_all add: Done_notin_fileGroup_events)

lemma unassigned_ok_prepareScanTasks: "unassigned_ok (prepareScanTasks env scanCmd)"
  by (cases "spec_Files scanCmd")
     (auto simp: prepareScanTasks_def fileGroup_events_def split: prod.splits)

lemma initial_inv: "pipeline_inv scanCmd (initial_pipeline cenv scanCmd)"
  by (simp add: pipeline_inv_def inv_config_def inv_producer_def inv_files_def inv_control_def
      initial_pipeline_def idle_NewRunner holds_NewRunner captures_fileGroups_events
      Done_notin_fileGroups_events unassigned_ok_prepareScanTasks)
     (simp add: NewRunner_def Let_def NewErrorsQueue_def prepareScanTasks_def
      captures_fileGroups_events Done_notin_fileGroups_events pool_threads_def)

lemma AddError_bounded:
  "length (errorsChan q) \<le> queueSize q \<Longrightarrow> length (errorsChan (AddError e q)) \<le> queueSize (AddError e q)"
  by (simp add: AddError_def)

lemma AddError_queueSize [simp]: "queueSize (AddError e q) = queueSize q"
  by (simp add: AddError_def)

lemma last_butlast_tl:
  "xs = e # rest \<Longrightarrow> last xs = d \<Longrightarrow> d \<notin> set (butlast xs) \<Longrightarrow>
   (rest = [] \<and> e = d) \<or> (rest \<noteq> [] \<and> e \<noteq> d \<and> last rest = d \<and> d \<notin> set (butlast rest))"
  by (cases rest) auto

lemma producer_step_inv:
  assumes inv: "pipeline_inv scanCmd p" and st: "producer_step p = Some p'"
  shows "pipeline_inv scanCmd p'"
proof -
  from st obtain event rest where pr: "producer p = event # rest"
    by (auto simp: producer_step_def split: list.splits)
  from inv have nc: "\<not> closed (fileProducer p)"
    using pr by (auto simp: pipeline_inv_def inv_producer_def split: if_splits)
  from inv pr nc have tail: "(rest = [] \<and> event = ProducerDone) \<or>
      (rest \<noteq> [] \<and> event \<noteq> ProducerDone \<and> last rest = ProducerDone \<and> ProducerDone \<notin> set (butlast rest))"
    using last_butlast_tl [of "producer p" event rest ProducerDone]
    by (simp add: pipeline_inv_def inv_producer_def)
  show ?thesis
  proof (cases event)
    case (AssignLoopVar g)
    with st pr have p': "p' = p\<lparr>producer := rest, heap := (heap p)(fileGroup_addr \<mapsto> g)\<rparr>"
      by (simp add: producer_step_def)
    show ?thesis using inv pr tail nc AssignLoopVar unfolding p'
      by (auto simp: pipeline_inv_def inv_config_def inv_producer_def inv_files_def inv_control_def)
  next
    case (AddIndexTask path a)
    from inv pr AddIndexTask have a: "a = fileGroup_addr"
      by (simp add: pipeline_inv_def inv_producer_def)
    from inv pr AddIndexTask have hp: "heap p fileGroup_addr \<noteq> None"
      by (auto simp: pipeline_inv_def inv_producer_def)
    from st pr AddIndexTask nc have
      p': "p' = p\<lparr>producer := rest,
                   fileProducer := (fileProducer p)\<lparr>tasks := tasks (fileProducer p) @ [IndexTask path a]\<rparr>\<rparr>"
      by (auto simp: producer_step_def AddTaskWithError_def split: if_splits)
    have no_drained: "\<not> drained (fileProducer p)"
      using nc by (simp add: drained_def)
    show ?thesis using inv pr tail nc AddIndexTask a hp no_drained unfolding p'
      by (auto simp: pipeline_inv_def inv_config_def inv_producer_def inv_files_def inv_control_def
          holds_def idle_def drained_def)
  next
    case (LogGroupError e)
    with st pr have p': "p' = p\<lparr>producer := rest, logs := logs p @ [LogError (Error_text e)]\<rparr>"
      by (simp add: producer_step_def)
    show ?thesis using inv pr tail nc LogGroupError unfolding p'
      by (auto simp: pipeline_inv_def inv_config_def inv_producer_def inv_files_def inv_control_def)
  next
    case (AddGroupError e)
    with st pr have p': "p' = p\<lparr>producer := rest, fileErrorsQueue := AddError e (fileErrorsQueue p)\<rparr>"
      by (simp add: producer_step_def)
    have "length (errorsChan (AddError e (fileErrorsQueue p))) \<le> 1"
      using inv AddError_bounded [of "fileErrorsQueue p" e]
      by (simp add: pipeline_inv_def inv_config_def)
    then show ?thesis using inv pr tail nc AddGroupError unfolding p'
      by (auto simp: pipeline_inv_def inv_config_def inv_producer_def inv_files_def inv_control_def)
  next
    case ProducerDone
    with st pr nc have p': "p' = p\<lparr>producer := rest, fileProducer := (fileProducer p)\<lparr>closed := True\<rparr>\<rparr>"
      by (simp add: producer_step_def Done_def)
    have no_drained: "\<not> drained (fileProducer p)"
      using nc by (simp add: drained_def)
    show ?thesis using inv pr tail nc ProducerDone no_drained unfolding p'
      by (auto simp: pipeline_inv_def inv_config_def inv_producer_def inv_files_def inv_control_def
          holds_def idle_def)
  qed
qed

lemma coordinator_step_inv:
  assumes inv: "pipeline_inv scanCmd p" and st: "coordinator_step p = Some p'"
  shows "pipeline_inv scanCmd p'"
proof (cases "coordinator p")
  case BeforeRunStage1
  with st have p': "p' = p\<lparr>coordinator := InRunStage1\<rparr>"
    by (simp add: coordinator_step_def)
  show ?thesis using inv BeforeRunStage1 unfolding p'
    by (auto simp: pipeline_inv_def inv_config_def inv_producer_def inv_files_def inv_control_def)
next
  case InRunStage1
  with st have ret: "Run_returns (fileProducer p)" and p': "p' = p\<lparr>coordinator := BeforeDoneStage2\<rparr>"
    by (auto simp: coordinator_step_def split: if_splits)
  from inv ret have "drained (fileProducer p)"
    by (auto simp: Run_returns_def drained_def pipeline_inv_def inv_config_def)
  then show ?thesis using inv InRunStage1 unfolding p'
    by (auto simp: pipeline_inv_def inv_config_def inv_producer_def inv_files_def inv_control_def)
next
  case BeforeDoneStage2
  with inv have nc: "\<not> closed (indexedFileProducer p)"
    by (simp add: pipeline_inv_def inv_control_def)
  with st BeforeDoneStage2 have
    p': "p' = p\<lparr>coordinator := CoordinatorFinished,
                 indexedFileProducer := (indexedFileProducer p)\<lparr>closed := True\<rparr>\<rparr>"
    by (simp add: coordinator_step_def Done_def)
  have nd: "\<not> drained (indexedFileProducer p)" using nc by (simp add: drained_def)
  show ?thesis using inv BeforeDoneStage2 nd unfolding p'
    by (auto simp: pipeline_inv_def inv_config_def inv_producer_def inv_files_def inv_control_def
        holds_def idle_def)
next
  case CoordinatorFinished
  with st show ?thesis by (simp add: coordinator_step_def)
qed

lemma caller_step_inv:
  assumes inv: "pipeline_inv scanCmd p" and st: "caller_step p = Some p'"
  shows "pipeline_inv scanCmd p'"
proof (cases "caller p")
  case BeforeRunStage2
  with st have p': "p' = p\<lparr>caller := InRunStage2\<rparr>"
    by (simp add: caller_step_def)
  show ?thesis using inv BeforeRunStage2 unfolding p'
    by (auto simp: pipeline_inv_def inv_config_def inv_producer_def inv_files_def inv_control_def)
next
  case InRunStage2
  with st have ret: "Run_returns (indexedFileProducer p)" and p': "p' = p\<lparr>caller := CallerReturned\<rparr>"
    by (auto simp: caller_step_def split: if_splits)
  from inv ret have "drained (indexedFileProducer p)"
    by (auto simp: Run_returns_def drained_def pipeline_inv_def inv_config_def)
  then show ?thesis using inv InRunStage2 unfolding p'
    by (auto simp: pipeline_inv_def inv_config_def inv_producer_def inv_files_def inv_control_def)
next
  case CallerReturned
  with st show ?thesis by (simp add: caller_step_def)
qed

lemma take_task_props:
  assumes "take_task t r = Some r'"
  shows "\<exists>task rest. tasks r = task # rest \<and> t < length (running r) \<and> running r ! t = None
           \<and> r' = r\<lparr>tasks := rest, running := (running r)[t := Some task]\<rparr>"
  using assms by (auto simp: take_task_def split: if_splits list.splits)

lemma these_update_subset:
  "Option.these (set (ws[t := w])) \<subseteq> Option.these (insert w (set ws))"
  using set_update_subset_insert [of ws t w] by (auto simp: Option.in_these_eq)

lemma holds_take:
  "holds (r\<lparr>tasks := rest, running := (running r)[t := Some task]\<rparr>)
     \<subseteq> insert task (set rest \<union> Option.these (set (running r)))"
  using these_update_subset [of "running r" t "Some task"]
  by (auto simp: holds_def Option.in_these_eq)

lemma holds_finish: "holds (finish_task t err r) \<subseteq> holds r"
  using these_update_subset [of "running r" t None]
  by (auto simp: holds_def finish_task_def Option.in_these_eq)

lemma not_idle_update: "t < length ws \<Longrightarrow> \<not> list_all (\<lambda>w. w = None) (ws[t := Some x])"
  by (auto simp: list_all_iff set_conv_nth nth_list_update) 

lemma idle_running: "idle r \<Longrightarrow> t < length (running r) \<Longrightarrow> running r ! t = None"
  by (simp add: idle_def list_all_iff)

lemma indexer_takes_inv:
  assumes inv: "pipeline_inv scanCmd p" and st: "indexer_takes t p = Some p'"
  shows "pipeline_inv scanCmd p'"
proof -
  from st have co: "coordinator p = InRunStage1"
    by (simp add: indexer_takes_def split: if_splits)
  from st co obtain r where tk: "take_task t (fileProducer p) = Some r" and p': "p' = p\<lparr>fileProducer := r\<rparr>"
    by (auto simp: indexer_takes_def split: option.splits)
  from take_task_props [OF tk] obtain task rest where
    ts: "tasks (fileProducer p) = task # rest" and t: "t < length (running (fileProducer p))"
    and r: "r = (fileProducer p)\<lparr>tasks := rest, running := (running (fileProducer p))[t := Some task]\<rparr>"
    by blast
  have sub: "holds r \<subseteq> holds (fileProducer p)"
    using holds_take [where r="fileProducer p" and rest=rest and t=t and task=task] ts unfolding r
    by (auto simp: holds_def)
  have files: "inv_files p'"
    using inv sub unfolding p' by (auto simp: pipeline_inv_def inv_files_def)
  show ?thesis using inv co files unfolding p' r
    by (auto simp: pipeline_inv_def inv_config_def inv_producer_def inv_control_def)
qed

lemma scanner_takes_inv:
  assumes inv: "pipeline_inv scanCmd p" and st: "scanner_takes t p = Some p'"
  shows "pipeline_inv scanCmd p'"
proof -
  from st have co: "caller p = InRunStage2"
    by (simp add: scanner_takes_def split: if_splits)
  from st co obtain r where tk: "take_task t (indexedFileProducer p) = Some r"
    and p': "p' = p\<lparr>indexedFileProducer := r\<rparr>"
    by (auto simp: scanner_takes_def split: option.splits)
  from take_task_props [OF tk] obtain task rest where
    ts: "tasks (indexedFileProducer p) = task # rest" and t: "t < length (running (indexedFileProducer p))"
    and r: "r = (indexedFileProducer p)\<lparr>tasks := rest, running := (running (indexedFileProducer p))[t := Some task]\<rparr>"
    by blast
  have sub: "holds r \<subseteq> holds (indexedFileProducer p)"
    using holds_take [where r="indexedFileProducer p" and rest=rest and t=t and task=task] ts unfolding r
    by (auto simp: holds_def)
  have files: "inv_files p'"
    using inv sub unfolding p' by (auto simp: pipeline_inv_def inv_files_def)
  show ?thesis using inv co files unfolding p' r
    by (auto simp: pipeline_inv_def inv_config_def inv_producer_def inv_control_def)
qed

lemma indexFile_nil: "indexFile env scanCmd path = (None, err, lg) \<Longrightarrow> err \<noteq> None"
  by (auto simp: indexFile_def Let_def split: prod.splits option.splits go_error.splits if_splits)

lemma indexTaskFunc_cases:
  assumes run: "indexTaskFunc env scanCmd path file t p = Some (p1, err)"
    and nc: "\<not> closed (indexedFileProducer p)"
  shows "(\<exists>lg. p1 = p\<lparr>logs := lg\<rparr>) \<or>
         (\<exists>lg g. err = None \<and> node_Id g \<noteq> [] \<and>
            p1 = p\<lparr>logs := lg,
                   indexedFileProducer :=
                     (indexedFileProducer p)\<lparr>tasks := tasks (indexedFileProducer p) @ [ScanTask g file]\<rparr>\<rparr>)"
proof -
  obtain graph ierr lg where ix: "indexFile env scanCmd path = (graph, ierr, lg)"
    by (cases "indexFile env scanCmd path") auto
  show ?thesis
  proof (cases ierr)
    case (Some e)
    with run ix show ?thesis by (auto simp: indexTaskFunc_def Let_def)
  next
    case None
    with ix indexFile_nil [of env scanCmd path ierr lg] obtain g where g: "graph = Some g"
      by (cases graph) auto
    show ?thesis
    proof (cases "node_Id g = []")
      case True
      with run ix None g show ?thesis by (auto simp: indexTaskFunc_def Let_def)
    next
      case False
      with run ix None g nc show ?thesis
        by (auto simp: indexTaskFunc_def Let_def AddTaskWithError_def split: if_splits)
    qed
  qed
qed

lemma running_Some_not_idle:
  "t < length (running r) \<Longrightarrow> running r ! t = Some x \<Longrightarrow> \<not> idle r"
  by (auto simp: idle_def list_all_iff set_conv_nth)

lemma running_Some_holds:
  "t < length (running r) \<Longrightarrow> running r ! t = Some x \<Longrightarrow> x \<in> holds r"
  by (auto simp: holds_def Option.in_these_eq set_conv_nth)

lemma finish_task_simps [simp]:
  "tasks (finish_task t err r) = tasks r"
  "closed (finish_task t err r) = closed r"
  "failFast (finish_task t err r) = failFast r"
  "maxParallel (finish_task t err r) = maxParallel r"
  "capacity (finish_task t err r) = capacity r"
  "length (running (finish_task t err r)) = length (running r)"
  "cancelled (finish_task t err r) = (cancelled r \<or> (failFast r \<and> err \<noteq> None))"
  by (simp_all add: finish_task_def)

lemma indexer_runs_inv:
  assumes inv: "pipeline_inv scanCmd p" and st: "indexer_runs env scanCmd t p = Some p'"
  shows "pipeline_inv scanCmd p'"
proof -
  from st obtain path fl where t: "t < length (running (fileProducer p))"
    and rt: "running (fileProducer p) ! t = Some (IndexTask path fl)"
    by (auto simp: indexer_runs_def split: if_splits option.splits index_task.splits)
  from st t rt obtain p1 err where run: "indexTaskFunc env scanCmd path fl t p = Some (p1, err)"
    and p': "p' = (case err of None \<Rightarrow> p1 | Some e \<Rightarrow> p1\<lparr>fileErrorsQueue := AddError e (fileErrorsQueue p1)\<rparr>)
                  \<lparr>fileProducer := finish_task t err
                      (fileProducer (case err of None \<Rightarrow> p1
                         | Some e \<Rightarrow> p1\<lparr>fileErrorsQueue := AddError e (fileErrorsQueue p1)\<rparr>))\<rparr>"
    by (auto simp: indexer_runs_def Let_def split: option.splits)
  have ni: "\<not> idle (fileProducer p)" using t rt by (rule running_Some_not_idle)
  with inv have co: "coordinator p = InRunStage1"
    by (cases "coordinator p") (auto simp: pipeline_inv_def inv_control_def drained_def)
  with inv have nc: "\<not> closed (indexedFileProducer p)"
    by (simp add: pipeline_inv_def inv_control_def)
  have hf: "heap p fl \<noteq> None"
    using inv running_Some_holds [OF t rt] by (auto simp: pipeline_inv_def inv_files_def)
  have q: "length (errorsChan (AddError e (fileErrorsQueue p))) \<le> 1" for e
    using inv AddError_bounded [of "fileErrorsQueue p" e]
    by (simp add: pipeline_inv_def inv_config_def)
  have hsub: "holds (finish_task t err (fileProducer p)) \<subseteq> holds (fileProducer p)"
    by (rule holds_finish)
  from indexTaskFunc_cases [OF run nc] show ?thesis
  proof (elim disjE exE conjE)
    fix lg assume p1: "p1 = p\<lparr>logs := lg\<rparr>"
    show ?thesis using inv co q hsub unfolding p' p1
      by (cases err)
         (auto simp: pipeline_inv_def inv_config_def inv_producer_def inv_files_def inv_control_def)
  next
    fix lg g assume e: "err = None" and "node_Id g \<noteq> []"
      and p1: "p1 = p\<lparr>logs := lg, indexedFileProducer :=
                     (indexedFileProducer p)\<lparr>tasks := tasks (indexedFileProducer p) @ [ScanTask g fl]\<rparr>\<rparr>"
    have nd: "\<not> drained (indexedFileProducer p)" using nc by (simp add: drained_def)
    show ?thesis using inv co hsub hf nd nc unfolding p' p1 e
      by (auto simp: pipeline_inv_def inv_config_def inv_producer_def inv_files_def inv_control_def
          holds_def idle_def)
  qed
qed

lemma scanTaskFunc_cases:
  assumes hp: "heap p fl = Some fileGroup" and t: "t < length (resultsArr p)"
  shows "scanTaskFunc env scanCmd v graph fl t p =
     (let params = \<lparr>Graph = graph, RepoPath = getXrayRepoPathFromTarget (Target fileGroup),
                     Watches = watches scanCmd, ProjectKey = projectKey scanCmd,
                     ScanTypeTag = Binary\<rparr>
      in case RunScanGraphAndGetResults env params (includeVulnerabilities scanCmd)
                (includeLicenses scanCmd) v of
           (res, Some err) \<Rightarrow>
             (p\<lparr>requests := requests p @ [params],
                logs := logs p @ [LogError (''Scanning '' @ node_Id graph
                                            @ '' failed with error: '' @ Error_text err)]\<rparr>,
              Some err)
         | (res, None) \<Rightarrow>
             (p\<lparr>requests := requests p @ [params],
                resultsArr := (resultsArr p)[t := resultsArr p ! t @ [res]]\<rparr>, None))"
  using hp t by (simp add: scanTaskFunc_def Let_def split: prod.splits option.splits)

lemma scanner_runs_inv:
  assumes inv: "pipeline_inv scanCmd p" and st: "scanner_runs env scanCmd v t p = Some p'"
  shows "pipeline_inv scanCmd p'"
proof -
  from st obtain graph fl where t: "t < length (running (indexedFileProducer p))"
    and rt: "running (indexedFileProducer p) ! t = Some (ScanTask graph fl)"
    by (auto simp: scanner_runs_def split: if_splits option.splits scan_task.splits)
  have ni: "\<not> idle (indexedFileProducer p)" using t rt by (rule running_Some_not_idle)
  with inv have co: "caller p = InRunStage2"
    by (cases "caller p") (auto simp: pipeline_inv_def inv_control_def drained_def)
  from inv running_Some_holds [OF t rt] obtain fileGroup where hf: "heap p fl = Some fileGroup"
    by (auto simp: pipeline_inv_def inv_files_def)
  from inv t have tr: "t < length (resultsArr p)"
    by (simp add: pipeline_inv_def inv_config_def)
  have q: "length (errorsChan (AddError e (indexedFileErrorsQueue p))) \<le> 1" for e
    using inv AddError_bounded [of "indexedFileErrorsQueue p" e]
    by (simp add: pipeline_inv_def inv_config_def)
  have hsub: "holds (finish_task t err (indexedFileProducer p)) \<subseteq> holds (indexedFileProducer p)" for err
    by (rule holds_finish)
  obtain p1 err where run: "scanTaskFunc env scanCmd v graph fl t p = (p1, err)"
    by (cases "scanTaskFunc env scanCmd v graph fl t p") auto
  from st t rt run have
    p': "p' = (case err of None \<Rightarrow> p1
               | Some e \<Rightarrow> p1\<lparr>indexedFileErrorsQueue := AddError e (indexedFileErrorsQueue p1)\<rparr>)
              \<lparr>indexedFileProducer := finish_task t err
                 (indexedFileProducer (case err of None \<Rightarrow> p1
                    | Some e \<Rightarrow> p1\<lparr>indexedFileErrorsQueue := AddError e (indexedFileErrorsQueue p1)\<rparr>))\<rparr>"
    by (auto simp: scanner_runs_def Let_def)
  from run have "(\<exists>rq lg. p1 = p\<lparr>requests := rq, logs := lg\<rparr>) \<or>
                 (\<exists>rq rs. err = None \<and> length rs = length (resultsArr p) \<and> p1 = p\<lparr>requests := rq, resultsArr := rs\<rparr>)"
  proof -
    let ?params = "\<lparr>Graph = graph, RepoPath = getXrayRepoPathFromTarget (Target fileGroup),
                     Watches = watches scanCmd, ProjectKey = projectKey scanCmd,
                     ScanTypeTag = Binary\<rparr>"
    obtain res rerr where call: "RunScanGraphAndGetResults env ?params (includeVulnerabilities scanCmd)
                (includeLicenses scanCmd) v = (res, rerr)"
      by (cases "RunScanGraphAndGetResults env ?params (includeVulnerabilities scanCmd)
                (includeLicenses scanCmd) v") auto
    show ?thesis
    proof (cases rerr)
      case None
      with run call have "err = None" and
        "p1 = p\<lparr>requests := requests p @ [?params],
                 resultsArr := (resultsArr p)[t := resultsArr p ! t @ [res]]\<rparr>"
        unfolding scanTaskFunc_cases [OF hf tr] by (simp_all add: Let_def)
      moreover have "length ((resultsArr p)[t := resultsArr p ! t @ [res]]) = length (resultsArr p)"
        by simp
      ultimately show ?thesis by blast
    next
      case (Some e)
      with run call have
        "p1 = p\<lparr>requests := requests p @ [?params],
                 logs := logs p @ [LogError (''Scanning '' @ node_Id graph
                                            @ '' failed with error: '' @ Error_text e)]\<rparr>"
        unfolding scanTaskFunc_cases [OF hf tr] by (simp_all add: Let_def)
      then show ?thesis by blast
    qed
  qed
  then show ?thesis
  proof (elim disjE exE conjE)
    fix rq lg assume p1: "p1 = p\<lparr>requests := rq, logs := lg\<rparr>"
    show ?thesis using inv co q hsub [of err] unfolding p' p1
      by (cases err)
         (auto simp: pipeline_inv_def inv_config_def inv_producer_def inv_files_def inv_control_def)
  next
    fix rq rs assume e: "err = None" and len: "length rs = length (resultsArr p)"
      and p1: "p1 = p\<lparr>requests := rq, resultsArr := rs\<rparr>"
    show ?thesis using inv co hsub [of None] len unfolding p' p1 e
      by (auto simp: pipeline_inv_def inv_config_def inv_producer_def inv_files_def inv_control_def)
  qed
qed

lemma step_inv:
  assumes "pipeline_inv scanCmd p" and "step env scanCmd v a p = Some p'"
  shows "pipeline_inv scanCmd p'"
  using assms
  by (cases a)
     (auto simp: step_def split: if_splits
       intro: producer_step_inv coordinator_step_inv caller_step_inv indexer_takes_inv
         indexer_runs_inv scanner_takes_inv scanner_runs_inv)

lemma exec_inv:
  "pipeline_inv scanCmd p \<Longrightarrow> exec env scanCmd v schedule p = Some p' \<Longrightarrow> pipeline_inv scanCmd p'"
proof (induction schedule arbitrary: p)
  case Nil
  then show ?case by simp
next
  case (Cons a schedule)
  from Cons.prems(2) obtain q where s: "step env scanCmd v a p = Some q"
    and e: "exec env scanCmd v schedule q = Some p'"
    by (auto split: option.splits)
  from Cons.prems(1) s have "pipeline_inv scanCmd q" by (rule step_inv)
  then show ?case using e by (rule Cons.IH)
qed

lemma reachable_inv:
  "exec env scanCmd v schedule (initial_pipeline cenv scanCmd) = Some p \<Longrightarrow> pipeline_inv scanCmd p"
  using initial_inv exec_inv by blast
subsection \<open>Progress of the pipeline\<close>

text \<open>
  Every step of a goroutine uses up some of the work that is left, so a run has no more
  steps than the work of its first state; and while \<^verbatim>\<open>performScanTasks\<close> has not
  returned, some goroutine can move. So every run ends, under every schedule, with
  \<^verbatim>\<open>performScanTasks\<close> returning.
\<close>

lemma busy_take:
  "t < length ws \<Longrightarrow> ws ! t = None \<Longrightarrow>
   length (filter (\<lambda>w. w \<noteq> None) (ws[t := Some x])) = Suc (length (filter (\<lambda>w. w \<noteq> None) ws))"
proof (induction ws arbitrary: t)
  case Nil
  then show ?case by simp
next
  case (Cons w ws)
  then show ?case by (cases t) auto
qed

lemma busy_finish:
  "t < length ws \<Longrightarrow> ws ! t = Some x \<Longrightarrow>
   Suc (length (filter (\<lambda>w. w \<noteq> None) (ws[t := None]))) = length (filter (\<lambda>w. w \<noteq> None) ws)"
proof (induction ws arbitrary: t)
  case Nil
  then show ?case by simp
next
  case (Cons w ws)
  then show ?case by (cases t) auto
qed

lemma busy_take_task:
  "take_task t r = Some r' \<Longrightarrow>
   busy r' = Suc (busy r) \<and> Suc (length (tasks r')) = length (tasks r)"
proof -
  assume tk: "take_task t r = Some r'"
  then obtain task rest where t: "t < length (running r)" "running r ! t = None"
    and ts: "tasks r = task # rest"
    and r': "r' = r\<lparr>tasks := rest, running := (running r)[t := Some task]\<rparr>"
    by (auto simp: take_task_def split: if_splits list.splits)
  have "busy r' = Suc (busy r)"
    unfolding busy_def r' using busy_take [OF t, of task] by simp
  then show ?thesis by (simp add: r' ts)
qed

lemma busy_finish_task:
  "t < length (running r) \<Longrightarrow> running r ! t = Some x \<Longrightarrow>
   Suc (busy (finish_task t err r)) = busy r"
  unfolding busy_def finish_task_def using busy_finish [of t "running r" x] by simp

lemma producer_step_work:
  "producer_step p = Some p' \<Longrightarrow> work p' < work p"
  by (auto simp: producer_step_def work_def busy_def AddTaskWithError_def Done_def
      split: list.splits producer_event.splits blocking.splits if_splits)

lemma coordinator_step_work:
  "coordinator_step p = Some p' \<Longrightarrow> work p' < work p"
  by (auto simp: coordinator_step_def work_def busy_def Done_def
      split: coordinator_pc.splits blocking.splits if_splits)

lemma caller_step_work:
  "caller_step p = Some p' \<Longrightarrow> work p' < work p"
  by (auto simp: caller_step_def work_def split: caller_pc.splits if_splits)

lemma indexer_takes_work:
  "indexer_takes t p = Some p' \<Longrightarrow> work p' < work p"
  by (auto simp: indexer_takes_def work_def dest!: busy_take_task split: if_splits option.splits)

lemma scanner_takes_work:
  "scanner_takes t p = Some p' \<Longrightarrow> work p' < work p"
  by (auto simp: scanner_takes_def work_def dest!: busy_take_task split: if_splits option.splits)

lemma indexTaskFunc_work:
  assumes "indexTaskFunc env scanCmd filePath fl t p = Some (p1, err)"
  shows "producer p1 = producer p" "coordinator p1 = coordinator p" "caller p1 = caller p"
    "fileProducer p1 = fileProducer p"
    "running (indexedFileProducer p1) = running (indexedFileProducer p)"
    "length (tasks (indexedFileProducer p1)) \<le> Suc (length (tasks (indexedFileProducer p)))"
  using assms
  by (auto simp: indexTaskFunc_def Let_def AddTaskWithError_def
      split: prod.splits option.splits if_splits blocking.splits)

lemma scanTaskFunc_work:
  assumes "scanTaskFunc env scanCmd v graph fl t p = (p1, err)"
  shows "producer p1 = producer p" "coordinator p1 = coordinator p" "caller p1 = caller p"
    "fileProducer p1 = fileProducer p" "indexedFileProducer p1 = indexedFileProducer p"
  using assms
  by (auto simp: scanTaskFunc_def Let_def split: prod.splits option.splits if_splits)

lemma indexer_runs_work:
  assumes "indexer_runs env scanCmd t p = Some p'"
  shows "work p' < work p"
proof -
  from assms have t: "t < length (running (fileProducer p))"
    by (simp add: indexer_runs_def split: if_splits)
  from assms t obtain filePath fl where task: "running (fileProducer p) ! t = Some (IndexTask filePath fl)"
    by (auto simp: indexer_runs_def split: option.splits index_task.splits)
  from assms t task obtain p1 err where
    run: "indexTaskFunc env scanCmd filePath fl t p = Some (p1, err)"
    and p': "p' = (case err of None \<Rightarrow> p1
                 | Some e \<Rightarrow> p1\<lparr>fileErrorsQueue := AddError e (fileErrorsQueue p1)\<rparr>)
                \<lparr>fileProducer := finish_task t err
                    (fileProducer (case err of None \<Rightarrow> p1
                       | Some e \<Rightarrow> p1\<lparr>fileErrorsQueue := AddError e (fileErrorsQueue p1)\<rparr>))\<rparr>"
    by (auto simp: indexer_runs_def Let_def split: option.splits)
  note w = indexTaskFunc_work [OF run]
  have fp: "fileProducer p' = finish_task t err (fileProducer p)"
    unfolding p' using w(4) by (cases err) simp_all
  have rest: "producer p' = producer p" "coordinator p' = coordinator p" "caller p' = caller p"
    "indexedFileProducer p' = indexedFileProducer p1"
    unfolding p' using w(1-3) by (cases err; simp)+
  have b1: "Suc (busy (fileProducer p')) = busy (fileProducer p)"
    unfolding fp using t task by (rule busy_finish_task)
  have b2: "busy (indexedFileProducer p') = busy (indexedFileProducer p)"
    using w(5) by (simp add: rest busy_def)
  have tk: "tasks (fileProducer p') = tasks (fileProducer p)" by (simp add: fp)
  from w(6) have t2: "length (tasks (indexedFileProducer p'))
                       \<le> Suc (length (tasks (indexedFileProducer p)))"
    by (simp add: rest)
  show ?thesis
    unfolding work_def rest(1-3) tk b2 using b1 t2 by arith
qed

lemma scanner_runs_work:
  assumes "scanner_runs env scanCmd v t p = Some p'"
  shows "work p' < work p"
proof -
  from assms have t: "t < length (running (indexedFileProducer p))"
    by (simp add: scanner_runs_def split: if_splits)
  from assms t obtain graph fl where
    task: "running (indexedFileProducer p) ! t = Some (ScanTask graph fl)"
    by (auto simp: scanner_runs_def split: option.splits scan_task.splits)
  obtain p1 err where run: "scanTaskFunc env scanCmd v graph fl t p = (p1, err)"
    by (cases "scanTaskFunc env scanCmd v graph fl t p") auto
  from assms t task run have
    p': "p' = (case err of None \<Rightarrow> p1
           | Some e \<Rightarrow> p1\<lparr>indexedFileErrorsQueue := AddError e (indexedFileErrorsQueue p1)\<rparr>)
          \<lparr>indexedFileProducer := finish_task t err
              (indexedFileProducer (case err of None \<Rightarrow> p1
                 | Some e \<Rightarrow>
                     p1\<lparr>indexedFileErrorsQueue := AddError e (indexedFileErrorsQueue p1)\<rparr>))\<rparr>"
    by (simp add: scanner_runs_def Let_def)
  note w = scanTaskFunc_work [OF run]
  have ip: "indexedFileProducer p' = finish_task t err (indexedFileProducer p)"
    unfolding p' using w(5) by (cases err) simp_all
  have rest: "producer p' = producer p" "coordinator p' = coordinator p" "caller p' = caller p"
    "fileProducer p' = fileProducer p"
    unfolding p' using w(1-4) by (cases err; simp)+
  have b2: "Suc (busy (indexedFileProducer p')) = busy (indexedFileProducer p)"
    unfolding ip using t task by (rule busy_finish_task)
  have tk: "tasks (indexedFileProducer p') = tasks (indexedFileProducer p)" by (simp add: ip)
  show ?thesis
    unfolding work_def rest tk using b2 by arith
qed

lemma step_work:
  "step env scanCmd v a p = Some p' \<Longrightarrow> work p' < work p"
  by (cases a)
     (auto simp: step_def split: if_splits
       dest: producer_step_work coordinator_step_work caller_step_work indexer_takes_work
         indexer_runs_work scanner_takes_work scanner_runs_work)


lemma busy_worker:
  "\<not> idle r \<Longrightarrow> \<exists>t x. t < length (running r) \<and> running r ! t = Some x"
  by (fastforce simp: idle_def list_all_iff in_set_conv_nth)

lemma take_task_enabled:
  assumes "0 < length (running r)" "idle r" "tasks r \<noteq> []" "\<not> cancelled r"
  shows "\<exists>r'. take_task 0 r = Some r'"
proof -
  from assms(1,2) have "running r ! 0 = None"
    by (auto simp: idle_def list_all_iff)
  with assms show ?thesis
    by (cases "tasks r") (simp_all add: take_task_def)
qed

lemma scanner_runs_enabled:
  assumes "t < length (running (indexedFileProducer p))"
    and "running (indexedFileProducer p) ! t = Some task"
  shows "\<exists>p'. scanner_runs env scanCmd v t p = Some p'"
  using assms
  by (cases task) (simp add: scanner_runs_def Let_def split: prod.splits)

lemma indexTaskFunc_enabled:
  assumes "length (tasks (indexedFileProducer p)) < capacity (indexedFileProducer p)"
  shows "indexTaskFunc env scanCmd filePath fl t p \<noteq> None"
  using assms
  by (auto simp: indexTaskFunc_def Let_def AddTaskWithError_def
      split: prod.splits option.splits blocking.splits if_splits)

lemma indexer_runs_enabled:
  assumes "t < length (running (fileProducer p))"
    and "running (fileProducer p) ! t = Some task"
    and "length (tasks (indexedFileProducer p)) < capacity (indexedFileProducer p)"
  shows "\<exists>p'. indexer_runs env scanCmd t p = Some p'"
proof (cases task)
  case (IndexTask filePath fl)
  from indexTaskFunc_enabled [OF assms(3), of env scanCmd filePath fl t]
  obtain p1 err where "indexTaskFunc env scanCmd filePath fl t p = Some (p1, err)"
    by (cases "indexTaskFunc env scanCmd filePath fl t p") auto
  with assms(1,2) IndexTask show ?thesis
    by (simp add: indexer_runs_def Let_def)
qed

lemma producer_step_enabled:
  assumes "producer p \<noteq> []" "\<not> closed (fileProducer p)"
    and "length (tasks (fileProducer p)) < capacity (fileProducer p)"
  shows "\<exists>p'. producer_step p = Some p'"
  using assms
  by (cases "producer p")
     (auto simp: producer_step_def AddTaskWithError_def Done_def split: producer_event.splits)

lemma pipeline_progress:
  assumes inv: "pipeline_inv scanCmd p" and nr: "caller p \<noteq> CallerReturned"
  shows "\<exists>a p'. step env scanCmd v a p = Some p'"
proof -
  from inv have cfg: "inv_config scanCmd p" and prod: "inv_producer p"
    and ctl: "inv_control p" and np: "panicked p = None"
    by (simp_all add: pipeline_inv_def)
  from cfg have w1: "0 < length (running (fileProducer p))"
    and w2: "0 < length (running (indexedFileProducer p))"
    and nc1: "\<not> cancelled (fileProducer p)" and nc2: "\<not> cancelled (indexedFileProducer p)"
    and cap1: "capacity (fileProducer p) = 20000"
    and cap2: "capacity (indexedFileProducer p) = 20000"
    by (simp_all add: inv_config_def pool_threads_def)
  have en: "\<And>a p'. (case a of
        Producer \<Rightarrow> producer_step p
      | Coordinator \<Rightarrow> coordinator_step p
      | Caller \<Rightarrow> caller_step p
      | IndexerTakes t \<Rightarrow> indexer_takes t p
      | IndexerRuns t \<Rightarrow> indexer_runs env scanCmd t p
      | ScannerTakes t \<Rightarrow> scanner_takes t p
      | ScannerRuns t \<Rightarrow> scanner_runs env scanCmd v t p) = Some p' \<Longrightarrow> ?thesis"
    using np by (auto simp: step_def)
  show ?thesis
  proof (cases "caller p")
    case BeforeRunStage2
    then have "caller_step p = Some (p\<lparr>caller := InRunStage2\<rparr>)"
      by (simp add: caller_step_def)
    then show ?thesis using en [of Caller] by simp
  next
    case CallerReturned
    with nr show ?thesis by simp
  next
    case InRunStage2
    show ?thesis
    proof (cases "idle (indexedFileProducer p)")
      case False
      then obtain t x where "t < length (running (indexedFileProducer p))"
        "running (indexedFileProducer p) ! t = Some x"
        using busy_worker by blast
      then obtain p' where "scanner_runs env scanCmd v t p = Some p'"
        using scanner_runs_enabled by blast
      then show ?thesis using en [of "ScannerRuns t"] by simp
    next
      case idle2: True
      show ?thesis
      proof (cases "tasks (indexedFileProducer p) = []")
        case False
        from take_task_enabled [OF w2 idle2 False nc2]
        obtain r' where "take_task 0 (indexedFileProducer p) = Some r'" by blast
        with InRunStage2 have "scanner_takes 0 p = Some (p\<lparr>indexedFileProducer := r'\<rparr>)"
          by (simp add: scanner_takes_def)
        then show ?thesis using en [of "ScannerTakes 0"] by simp
      next
        case empty2: True
        show ?thesis
        proof (cases "closed (indexedFileProducer p)")
          case True
          with idle2 empty2 InRunStage2 have "caller_step p = Some (p\<lparr>caller := CallerReturned\<rparr>)"
            by (simp add: caller_step_def Run_returns_def)
          then show ?thesis using en [of Caller] by simp
        next
          case open2: False
          have room2: "length (tasks (indexedFileProducer p)) < capacity (indexedFileProducer p)"
            by (simp add: empty2 cap2)
          show ?thesis
          proof (cases "coordinator p")
            case BeforeRunStage1
            then have "coordinator_step p = Some (p\<lparr>coordinator := InRunStage1\<rparr>)"
              by (simp add: coordinator_step_def)
            then show ?thesis using en [of Coordinator] by simp
          next
            case BeforeDoneStage2
            with open2 have "\<exists>p'. coordinator_step p = Some p'"
              by (simp add: coordinator_step_def Done_def)
            then show ?thesis using en [of Coordinator] by auto
          next
            case CoordinatorFinished
            with ctl open2 show ?thesis by (simp add: inv_control_def)
          next
            case InRunStage1
            show ?thesis
            proof (cases "idle (fileProducer p)")
              case False
              then obtain t x where "t < length (running (fileProducer p))"
                "running (fileProducer p) ! t = Some x"
                using busy_worker by blast
              from indexer_runs_enabled [OF this room2]
              obtain p' where "indexer_runs env scanCmd t p = Some p'" by blast
              then show ?thesis using en [of "IndexerRuns t"] by simp
            next
              case idle1: True
              show ?thesis
              proof (cases "tasks (fileProducer p) = []")
                case False
                from take_task_enabled [OF w1 idle1 False nc1]
                obtain r' where "take_task 0 (fileProducer p) = Some r'" by blast
                with InRunStage1 have "indexer_takes 0 p = Some (p\<lparr>fileProducer := r'\<rparr>)"
                  by (simp add: indexer_takes_def)
                then show ?thesis using en [of "IndexerTakes 0"] by simp
              next
                case empty1: True
                show ?thesis
                proof (cases "closed (fileProducer p)")
                  case True
                  with idle1 empty1 InRunStage1
                  have "coordinator_step p = Some (p\<lparr>coordinator := BeforeDoneStage2\<rparr>)"
                    by (simp add: coordinator_step_def Run_returns_def)
                  then show ?thesis using en [of Coordinator] by simp
                next
                  case open1: False
                  with prod have "producer p \<noteq> []" by (simp add: inv_producer_def)
                  from producer_step_enabled [OF this open1]
                  obtain p' where "producer_step p = Some p'"
                    by (auto simp: empty1 cap1)
                  then show ?thesis using en [of Producer] by simp
                qed
              qed
            qed
          qed
        qed
      qed
    qed
  qed
qed

lemma pipeline_completes:
  assumes "pipeline_inv scanCmd p"
  shows "\<exists>rest p'. exec env scanCmd v rest p = Some p' \<and> caller p' = CallerReturned"
  using assms
proof (induction "work p" arbitrary: p rule: less_induct)
  case less
  show ?case
  proof (cases "caller p = CallerReturned")
    case True
    then have "exec env scanCmd v [] p = Some p \<and> caller p = CallerReturned" by simp
    then show ?thesis by blast
  next
    case False
    from pipeline_progress [OF less.prems False]
    obtain a q where st: "step env scanCmd v a p = Some q" by blast
    from step_work [OF st] step_inv [OF less.prems st]
    obtain rest p' where "exec env scanCmd v rest q = Some p'" "caller p' = CallerReturned"
      using less.hyps by blast
    with st have "exec env scanCmd v (a # rest) p = Some p' \<and> caller p' = CallerReturned"
      by simp
    then show ?thesis by blast
  qed
qed

subsection \<open>The claims about the pipeline\<close>

lemma handle_arr_flat: "fst (handle_arr arr st) = fst st @ arr"
  by (induction arr st rule: handle_arr.induct) simp_all

lemma handle_arr_passed:
  "scanPassed (snd (handle_arr arr st)) =
     (scanPassed (snd st) \<and> (\<forall>res \<in> set arr. Violations res = [] \<and> Vulnerabilities res = []))"
  by (induction arr st rule: handle_arr.induct) auto

lemma handle_resultsArr_flat: "fst (handle_resultsArr arrs st) = fst st @ concat arrs"
  by (induction arrs arbitrary: st) (simp_all add: handle_arr_flat)

lemma handle_resultsArr_passed:
  "scanPassed (snd (handle_resultsArr arrs st)) =
     (scanPassed (snd st) \<and> (\<forall>res \<in> set (concat arrs). Violations res = [] \<and> Vulnerabilities res = []))"
  by (induction arrs arbitrary: st) (auto simp: handle_arr_passed)

lemma handle_results_flat: "fst (handle_results scanCmd p) = concat (resultsArr p)"
  by (simp add: handle_results_def handle_resultsArr_flat)

lemma handle_results_passed:
  "scanPassed (snd (handle_results scanCmd p)) =
     (\<forall>res \<in> set (concat (resultsArr p)). Violations res = [] \<and> Vulnerabilities res = [])"
  by (simp add: handle_results_def handle_resultsArr_passed)

lemma Run_after_tasks_command: "command (Run_after_tasks renv scanCmd p) = snd (handle_results scanCmd p)"
  by (simp add: Run_after_tasks_def Let_def GetError_def split: prod.splits option.splits list.splits)

lemma Run_after_tasks_events:
  "\<exists>rest. events (Run_after_tasks renv scanCmd p) =
     TasksPerformed # ResultsPrinted (concat (resultsArr p)) # rest"
  using handle_results_flat [of scanCmd p]
  by (auto simp: Run_after_tasks_def Let_def GetError_def split: prod.splits option.splits list.splits)

lemma Run_deferred_simps [simp]:
  "command (Run_deferred out) = command out" "events (Run_deferred out) = events out"
  by (simp_all add: Run_deferred_def split: option.splits)

lemma Run_returns_cases:
  assumes "Run renv cenv senv schedule scanCmd0 = Some (Returns out)" and "events out \<noteq> []"
  shows "\<exists>p xrayVersion path.
           exec senv (scanCmd0\<lparr>indexerPath := path\<rparr>) xrayVersion schedule
             (initial_pipeline cenv (scanCmd0\<lparr>indexerPath := path\<rparr>)) = Some p \<and>
           caller p = CallerReturned \<and>
           out = Run_deferred (Run_after_tasks renv (scanCmd0\<lparr>indexerPath := path\<rparr>) p)"
  using assms
  by (auto simp: Run_def Let_def split: prod.splits option.splits if_splits)

lemmas pipeline_eval =
  initial_pipeline_def prepareScanTasks_def fileGroup_events_def collectFilesForIndexing_def
  step_def producer_step_def coordinator_step_def caller_step_def indexer_takes_def
  indexer_runs_def scanner_takes_def scanner_runs_def take_task_def finish_task_def
  AddTaskWithError_def Done_def NewRunner_def NewErrorsQueue_def AddError_def GetError_def
  pool_threads_def indexTaskFunc_def scanTaskFunc_def indexFile_def indexFile_failure_def
  indexingCommand_def fileNotSupportedExitCode_def zero_GraphNode_def CheckError_def
  fileGroup_addr_def Let_def getXrayRepoPathFromTarget_def HasSuffix_def LastIndex_def
  Run_returns_def idle_def drained_def

lemmas example_defs =
  example_collector_def example_services_def example_command_def example_group1_def
  example_group2_def example_schedule_def example_run_env_def failing_services_def
  failing_schedule_def failing_collector_def group_error_schedule_def
  broken_indexer_services_def broken_indexer_schedule_def unreachable_xray_services_def
  unresolvable_collector_def unresolvable_schedule_def bad_pattern_collector_def
  bad_path_collector_def

lemma reachable_drained:
  assumes "exec senv scanCmd xrayVersion schedule (initial_pipeline cenv scanCmd) = Some p"
  shows "(closed (indexedFileProducer p) \<longrightarrow>
            coordinator p = CoordinatorFinished \<and> drained (fileProducer p) \<and> producer p = [])"
    and "coordinator p \<noteq> CoordinatorFinished \<longrightarrow> \<not> closed (indexedFileProducer p)"
    and "caller p = CallerReturned \<longrightarrow>
            drained (indexedFileProducer p) \<and> drained (fileProducer p)"
    and "panicked p = None"
proof -
  from assms have inv: "pipeline_inv scanCmd p" by (rule reachable_inv)
  then have ctl: "inv_control p" and prod: "inv_producer p" and np: "panicked p = None"
    by (simp_all add: pipeline_inv_def)
  show c2: "closed (indexedFileProducer p) \<longrightarrow>
            coordinator p = CoordinatorFinished \<and> drained (fileProducer p) \<and> producer p = []"
    using ctl prod by (auto simp: inv_control_def inv_producer_def drained_def split: if_splits)
  show "coordinator p \<noteq> CoordinatorFinished \<longrightarrow> \<not> closed (indexedFileProducer p)"
    using ctl by (simp add: inv_control_def)
  show "caller p = CallerReturned \<longrightarrow> drained (indexedFileProducer p) \<and> drained (fileProducer p)"
    using ctl c2 by (auto simp: inv_control_def drained_def)
  show "panicked p = None" by (rule np)
qed

lemma example_completes:
  "case exec example_services example_command ''3.40.0'' example_schedule
          (initial_pipeline example_collector example_command) of
     None \<Rightarrow> False
   | Some p \<Rightarrow> caller p = CallerReturned \<and> closed (indexedFileProducer p)"
  by (simp add: pipeline_eval example_defs)

text \<open>
  C2. In every state the pipeline can reach, under any schedule: the second pool has been
  told that there are no more producers only by the goroutine of \<^verbatim>\<open>performScanTasks\<close> after
  \<^verbatim>\<open>fileConsumer.Run()\<close> returned, and then the first pool has fully drained and the producer
  has performed all its events, so that nothing can add a scan task any more; and
  \<^verbatim>\<open>performScanTasks\<close> has returned only when the second pool has fully drained too. No
  reachable state has panicked: in particular no task is ever sent to a pool that was
  told that production is finished.
\<close>

theorem stage2_done_only_after_stage1_drained:
  assumes "exec senv scanCmd xrayVersion schedule (initial_pipeline cenv scanCmd) = Some p"
  shows "(closed (indexedFileProducer p) \<longrightarrow>
            coordinator p = CoordinatorFinished \<and> drained (fileProducer p) \<and> producer p = []) \<and>
         (coordinator p \<noteq> CoordinatorFinished \<longrightarrow> \<not> closed (indexedFileProducer p)) \<and>
         (caller p = CallerReturned \<longrightarrow>
            drained (indexedFileProducer p) \<and> drained (fileProducer p)) \<and>
         panicked p = None"
  using reachable_drained [OF assms] by blast

theorem stage2_done_only_after_stage1_drained_witness:
  "\<exists>p. exec example_services example_command ''3.40.0'' example_schedule
          (initial_pipeline example_collector example_command) = Some p \<and>
        closed (indexedFileProducer p) \<and> caller p = CallerReturned \<and>
        drained (fileProducer p) \<and> drained (indexedFileProducer p) \<and> producer p = [] \<and>
        panicked p = None"
proof -
  from example_completes obtain p where
    run: "exec example_services example_command ''3.40.0'' example_schedule
            (initial_pipeline example_collector example_command) = Some p"
    and fin: "caller p = CallerReturned" "closed (indexedFileProducer p)"
    by (auto split: option.splits)
  from stage2_done_only_after_stage1_drained [OF run] fin show ?thesis
    using run by blast
qed

text \<open>
  C1 (the code differs). The claim: the repository path of every scan request comes from
  the target of the group whose pattern matched the file, also when the scan task runs
  after the producer has moved on to a later group. The scan task reads \<^verbatim>\<open>file.Target\<close>
  through the address of the loop variable when it runs. In the run below the producer
  has walked both groups before the files are scanned: the request for the graph of
  \<^verbatim>\<open>a/x.jar\<close>, a file of the first group (target \<^verbatim>\<open>repo1/\<close>), carries the repository path
  \<^verbatim>\<open>repo2/dir/\<close> of the second group.
\<close>

theorem scan_request_reads_shared_loop_variable:
  "map_option (\<lambda>p. map (\<lambda>r. (node_Id (Graph r), RepoPath r)) (requests p))
     (exec example_services example_command ''3.40.0'' example_schedule
        (initial_pipeline example_collector example_command))
     = Some [(''a/x.jar'', ''repo2/dir/''), (''b/y.jar'', ''repo2/dir/'')] \<and>
   collectFilesForIndexing example_collector example_group1 = ([''a/x.jar''], None) \<and>
   getXrayRepoPathFromTarget (Target example_group1) = ''repo1/''"
  by (simp add: pipeline_eval example_defs)

lemma zero_threads_run:
  "case exec example_services (SetThreads 0 example_command) ''3.40.0'' example_schedule
          (initial_pipeline example_collector (SetThreads 0 example_command)) of
     None \<Rightarrow> False
   | Some p \<Rightarrow> caller p = CallerReturned \<and> map length (resultsArr p) = [2]"
  by (simp add: pipeline_eval example_defs SetThreads_def)

text \<open>
  C9. \<^verbatim>\<open>Run\<close> creates both pools with \<^verbatim>\<open>scanCmd.threads\<close> itself, and the result slots with
  its local \<^verbatim>\<open>threads\<close>, which is \<^verbatim>\<open>scanCmd.threads\<close> with a minimum of 1. The pool applies
  the same minimum to its number of workers. So in every reachable state each pool has
  the configured number of workers, and one when that number is not positive, there are
  as many result slots as workers, and the index of a worker that runs a scan task is the
  index of a slot: no state panics.
\<close>

theorem every_worker_has_a_result_slot:
  assumes "exec senv scanCmd xrayVersion schedule (initial_pipeline cenv scanCmd) = Some p"
  shows "length (running (fileProducer p)) = nat (if 1 < threads scanCmd then threads scanCmd else 1) \<and>
         length (running (indexedFileProducer p))
           = nat (if 1 < threads scanCmd then threads scanCmd else 1) \<and>
         1 \<le> length (running (fileProducer p)) \<and>
         1 \<le> length (running (indexedFileProducer p)) \<and>
         length (resultsArr p) = length (running (indexedFileProducer p)) \<and>
         panicked p = None \<and>
         (\<forall>t p'. step senv scanCmd xrayVersion (ScannerRuns t) p = Some p'
            \<longrightarrow> t < length (resultsArr p) \<and> panicked p' = None)"
proof -
  from assms have inv: "pipeline_inv scanCmd p" by (rule reachable_inv)
  then have cfg: "inv_config scanCmd p" and np: "panicked p = None"
    by (simp_all add: pipeline_inv_def)
  from cfg have l1: "length (running (fileProducer p)) = nat (pool_threads scanCmd)"
    and l2: "length (running (indexedFileProducer p)) = nat (pool_threads scanCmd)"
    and l3: "length (resultsArr p) = nat (pool_threads scanCmd)"
    by (simp_all add: inv_config_def)
  have pos: "1 \<le> nat (pool_threads scanCmd)" by (simp add: pool_threads_def Suc_le_eq)
  have slot: "t < length (resultsArr p) \<and> panicked p' = None"
    if st: "step senv scanCmd xrayVersion (ScannerRuns t) p = Some p'" for t p'
  proof -
    from st have "scanner_runs senv scanCmd xrayVersion t p = Some p'"
      by (simp add: step_def split: if_splits)
    then have "t < length (running (indexedFileProducer p))"
      by (simp add: scanner_runs_def split: if_splits)
    then have "t < length (resultsArr p)" by (simp add: l2 l3)
    moreover from step_inv [OF inv st] have "panicked p' = None"
      by (simp add: pipeline_inv_def)
    ultimately show ?thesis by simp
  qed
  show ?thesis
    using l1 l2 l3 pos np slot by (simp add: pool_threads_def)
qed

theorem every_worker_has_a_result_slot_witness:
  "\<exists>p. exec example_services (SetThreads 0 example_command) ''3.40.0'' example_schedule
          (initial_pipeline example_collector (SetThreads 0 example_command)) = Some p \<and>
        caller p = CallerReturned \<and>
        length (running (fileProducer p)) = 1 \<and>
        length (running (indexedFileProducer p)) = 1 \<and>
        map length (resultsArr p) = [2] \<and> panicked p = None"
proof -
  from zero_threads_run obtain p where
    run: "exec example_services (SetThreads 0 example_command) ''3.40.0'' example_schedule
          (initial_pipeline example_collector (SetThreads 0 example_command)) = Some p"
    and fin: "caller p = CallerReturned" "map length (resultsArr p) = [2]"
    by (auto split: option.splits)
  from every_worker_has_a_result_slot [OF run]
  have "length (running (fileProducer p)) = 1" "length (running (indexedFileProducer p)) = 1"
    "panicked p = None"
    by (simp_all add: SetThreads_def)
  with run fin show ?thesis by (intro exI [of _ p] conjI)
qed

lemma Run_reaches_results:
  assumes run: "Run renv cenv senv schedule scanCmd0 = Some (Returns out)"
    and ev: "events out \<noteq> []"
  shows "\<exists>p xrayVersion scanCmd.
           exec senv scanCmd xrayVersion schedule (initial_pipeline cenv scanCmd) = Some p \<and>
           drained (fileProducer p) \<and> drained (indexedFileProducer p) \<and>
           pipeline_inv scanCmd p \<and>
           out = Run_deferred (Run_after_tasks renv scanCmd p)"
proof -
  from Run_returns_cases [OF run ev] obtain p xrayVersion path where
    ex: "exec senv (scanCmd0\<lparr>indexerPath := path\<rparr>) xrayVersion schedule
           (initial_pipeline cenv (scanCmd0\<lparr>indexerPath := path\<rparr>)) = Some p"
    and ret: "caller p = CallerReturned"
    and out: "out = Run_deferred (Run_after_tasks renv (scanCmd0\<lparr>indexerPath := path\<rparr>) p)"
    by blast
  from reachable_drained(3) [OF ex] ret
  have "drained (indexedFileProducer p)" "drained (fileProducer p)" by simp_all
  moreover from ex have "pipeline_inv (scanCmd0\<lparr>indexerPath := path\<rparr>) p" by (rule reachable_inv)
  ultimately show ?thesis using ex out by blast
qed

text \<open>
  C6. When \<^verbatim>\<open>Run\<close> gets past \<^verbatim>\<open>performScanTasks\<close>, both pools have drained, the results that are
  printed are the concatenation of the result slots, and \<^verbatim>\<open>IsScanPassed\<close> is true afterwards
  if and only if no result of that flattened list has a violation or a vulnerability.
\<close>

theorem scan_passed_iff_no_findings:
  assumes "Run renv cenv senv schedule scanCmd0 = Some (Returns out)"
    and "TasksPerformed \<in> set (events out)"
  shows "\<exists>p xrayVersion scanCmd.
           exec senv scanCmd xrayVersion schedule (initial_pipeline cenv scanCmd) = Some p \<and>
           drained (fileProducer p) \<and> drained (indexedFileProducer p) \<and>
           ResultsPrinted (concat (resultsArr p)) \<in> set (events out) \<and>
           (IsScanPassed (command out) \<longleftrightarrow>
              (\<forall>res \<in> set (concat (resultsArr p)).
                 Violations res = [] \<and> Vulnerabilities res = []))"
proof -
  from assms(2) have "events out \<noteq> []" by auto
  from Run_reaches_results [OF assms(1) this] obtain p xrayVersion scanCmd where
    ex: "exec senv scanCmd xrayVersion schedule (initial_pipeline cenv scanCmd) = Some p"
    and dr: "drained (fileProducer p)" "drained (indexedFileProducer p)"
    and out: "out = Run_deferred (Run_after_tasks renv scanCmd p)"
    by blast
  have "ResultsPrinted (concat (resultsArr p)) \<in> set (events out)"
    using Run_after_tasks_events [of renv scanCmd p] unfolding out by auto
  moreover have "IsScanPassed (command out) \<longleftrightarrow>
      (\<forall>res \<in> set (concat (resultsArr p)). Violations res = [] \<and> Vulnerabilities res = [])"
    unfolding out by (simp add: IsScanPassed_def Run_after_tasks_command handle_results_passed)
  ultimately show ?thesis using ex dr by blast
qed

lemma example_Run:
  "Run example_run_env example_collector example_services example_schedule example_command =
     Some (Returns
       \<lparr>returned = None,
        command = example_command\<lparr>scanPassed := True\<rparr>,
        events =
          [TasksPerformed,
           ResultsPrinted
             [\<lparr>ScanId = ''a/x.jar'', Violations = [], Vulnerabilities = []\<rparr>,
              \<lparr>ScanId = ''b/y.jar'', Violations = [], Vulnerabilities = []\<rparr>],
           FileErrorsRead, IndexedFileErrorsRead, CompletionLogged]\<rparr>)"
  by (simp add: Run_def Run_after_tasks_def Run_deferred_def handle_results_def
      pipeline_eval example_defs)

theorem scan_passed_iff_no_findings_witness:
  "\<exists>p xrayVersion scanCmd.
     exec example_services scanCmd xrayVersion example_schedule
       (initial_pipeline example_collector scanCmd) = Some p \<and>
     drained (fileProducer p) \<and> drained (indexedFileProducer p) \<and>
     ResultsPrinted (concat (resultsArr p))
       \<in> set [TasksPerformed,
               ResultsPrinted
                 [\<lparr>ScanId = ''a/x.jar'', Violations = [], Vulnerabilities = []\<rparr>,
                  \<lparr>ScanId = ''b/y.jar'', Violations = [], Vulnerabilities = []\<rparr>],
               FileErrorsRead, IndexedFileErrorsRead, CompletionLogged] \<and>
     (\<forall>res \<in> set (concat (resultsArr p)). Violations res = [] \<and> Vulnerabilities res = [])"
  using scan_passed_iff_no_findings [OF example_Run]
  by (simp add: IsScanPassed_def)





lemma failing_queues:
  "case exec failing_services example_command ''3.40.0'' failing_schedule
          (initial_pipeline example_collector example_command) of
     None \<Rightarrow> False
   | Some p \<Rightarrow>
       errorsChan (fileErrorsQueue p) =
         [OtherError ''Xray indexer app failed indexing a/x.jar with exit status 1: broken''] \<and>
       errorsChan (indexedFileErrorsQueue p) = [OtherError ''server unreachable'']"
  by (simp add: pipeline_eval example_defs)


lemma indexer_runs_unfold:
  assumes inv: "pipeline_inv scanCmd p"
    and st: "step senv scanCmd xrayVersion (IndexerRuns t) p = Some p'"
    and task: "running (fileProducer p) ! t = Some (IndexTask filePath fl)"
  shows "t < length (running (fileProducer p))"
    and "\<not> closed (indexedFileProducer p)"
    and "\<exists>p1 err. indexTaskFunc senv scanCmd filePath fl t p = Some (p1, err) \<and>
           p' = (case err of None \<Rightarrow> p1
                 | Some e \<Rightarrow> p1\<lparr>fileErrorsQueue := AddError e (fileErrorsQueue p1)\<rparr>)
                \<lparr>fileProducer := finish_task t err
                    (fileProducer (case err of None \<Rightarrow> p1
                       | Some e \<Rightarrow> p1\<lparr>fileErrorsQueue := AddError e (fileErrorsQueue p1)\<rparr>))\<rparr>"
proof -
  from st have ir: "indexer_runs senv scanCmd t p = Some p'"
    by (simp add: step_def split: if_splits)
  then show t: "t < length (running (fileProducer p))"
    by (simp add: indexer_runs_def split: if_splits)
  from t task have "\<not> idle (fileProducer p)" by (rule running_Some_not_idle)
  with inv have "coordinator p = InRunStage1"
    by (cases "coordinator p") (auto simp: pipeline_inv_def inv_control_def drained_def)
  with inv show "\<not> closed (indexedFileProducer p)"
    by (simp add: pipeline_inv_def inv_control_def)
  from ir t task obtain p1 err where
    "indexTaskFunc senv scanCmd filePath fl t p = Some (p1, err)"
    "p' = (case err of None \<Rightarrow> p1
           | Some e \<Rightarrow> p1\<lparr>fileErrorsQueue := AddError e (fileErrorsQueue p1)\<rparr>)
          \<lparr>fileProducer := finish_task t err
              (fileProducer (case err of None \<Rightarrow> p1
                 | Some e \<Rightarrow> p1\<lparr>fileErrorsQueue := AddError e (fileErrorsQueue p1)\<rparr>))\<rparr>"
    by (auto simp: indexer_runs_def Let_def split: option.splits)
  then show "\<exists>p1 err. indexTaskFunc senv scanCmd filePath fl t p = Some (p1, err) \<and>
           p' = (case err of None \<Rightarrow> p1
                 | Some e \<Rightarrow> p1\<lparr>fileErrorsQueue := AddError e (fileErrorsQueue p1)\<rparr>)
                \<lparr>fileProducer := finish_task t err
                    (fileProducer (case err of None \<Rightarrow> p1
                       | Some e \<Rightarrow> p1\<lparr>fileErrorsQueue := AddError e (fileErrorsQueue p1)\<rparr>))\<rparr>"
    by blast
qed

lemma indexTaskFunc_result:
  assumes nc: "\<not> closed (indexedFileProducer p)"
    and run: "indexTaskFunc senv scanCmd filePath fl t p = Some (p1, err)"
    and ix: "indexFile senv scanCmd filePath = (graph, ierr, lg)"
  shows "err = ierr"
    and "fileErrorsQueue p1 = fileErrorsQueue p"
    and "indexedFileErrorsQueue p1 = indexedFileErrorsQueue p"
    and "resultsArr p1 = resultsArr p"
    and "panicked p1 = panicked p"
    and "fileProducer p1 = fileProducer p"
    and "tasks (indexedFileProducer p1) =
           tasks (indexedFileProducer p)
           @ (case (graph, ierr) of
                (Some g, None) \<Rightarrow> if node_Id g = [] then [] else [ScanTask g fl]
              | _ \<Rightarrow> [])"
proof -
  have nil: "ierr = None \<Longrightarrow> graph \<noteq> None"
    using indexFile_nil [of senv scanCmd filePath ierr lg] ix by auto
  show "err = ierr" "fileErrorsQueue p1 = fileErrorsQueue p"
    "indexedFileErrorsQueue p1 = indexedFileErrorsQueue p" "resultsArr p1 = resultsArr p"
    "panicked p1 = panicked p" "fileProducer p1 = fileProducer p"
    "tasks (indexedFileProducer p1) =
           tasks (indexedFileProducer p)
           @ (case (graph, ierr) of
                (Some g, None) \<Rightarrow> if node_Id g = [] then [] else [ScanTask g fl]
              | _ \<Rightarrow> [])"
    using run ix nc nil
    by (auto simp: indexTaskFunc_def Let_def AddTaskWithError_def
        split: option.splits if_splits blocking.splits)
qed

lemma indexer_runs_forwarded:
  assumes reach: "exec senv scanCmd xrayVersion schedule (initial_pipeline cenv scanCmd) = Some p"
    and st: "step senv scanCmd xrayVersion (IndexerRuns t) p = Some p'"
    and task: "running (fileProducer p) ! t = Some (IndexTask filePath fl)"
    and ix: "indexFile senv scanCmd filePath = (graph, err, logged)"
  shows "tasks (indexedFileProducer p') =
           tasks (indexedFileProducer p)
           @ (case (graph, err) of
                (Some g, None) \<Rightarrow> if node_Id g = [] then [] else [ScanTask g fl]
              | _ \<Rightarrow> []) \<and>
         running (indexedFileProducer p') = running (indexedFileProducer p)"
proof -
  from reach have inv: "pipeline_inv scanCmd p" by (rule reachable_inv)
  from indexer_runs_unfold [OF inv st task] obtain p1 e where
    nc: "\<not> closed (indexedFileProducer p)"
    and run: "indexTaskFunc senv scanCmd filePath fl t p = Some (p1, e)"
    and p': "p' = (case e of None \<Rightarrow> p1
                 | Some e' \<Rightarrow> p1\<lparr>fileErrorsQueue := AddError e' (fileErrorsQueue p1)\<rparr>)
                \<lparr>fileProducer := finish_task t e
                    (fileProducer (case e of None \<Rightarrow> p1
                       | Some e' \<Rightarrow> p1\<lparr>fileErrorsQueue := AddError e' (fileErrorsQueue p1)\<rparr>))\<rparr>"
    by blast
  have same: "indexedFileProducer p' = indexedFileProducer p1"
    unfolding p' by (cases e) simp_all
  have tk: "tasks (indexedFileProducer p1) =
           tasks (indexedFileProducer p)
           @ (case (graph, err) of
                (Some g, None) \<Rightarrow> if node_Id g = [] then [] else [ScanTask g fl]
              | _ \<Rightarrow> [])"
    by (rule indexTaskFunc_result(7) [OF nc run ix])
  have rn: "running (indexedFileProducer p1) = running (indexedFileProducer p)"
    using run ix nc indexFile_nil [of senv scanCmd filePath err logged]
    by (auto simp: indexTaskFunc_def Let_def AddTaskWithError_def
        split: option.splits if_splits blocking.splits)
  show ?thesis unfolding same using tk rn by simp
qed

text \<open>
  C3. When a worker of the first pool runs the indexing task of a file in a reachable
  state, the backlog of the second pool grows by exactly the one scan task of the graph
  that \<^verbatim>\<open>indexFile\<close> returned, if it returned a graph with a non-empty \<^verbatim>\<open>Id\<close> and no error,
  and by nothing otherwise: never more than one task for a file.
\<close>

theorem indexing_forwards_at_most_one_task:
  assumes "exec senv scanCmd xrayVersion schedule (initial_pipeline cenv scanCmd) = Some p"
    and "step senv scanCmd xrayVersion (IndexerRuns t) p = Some p'"
    and "running (fileProducer p) ! t = Some (IndexTask filePath fl)"
    and "indexFile senv scanCmd filePath = (graph, err, logged)"
  shows "tasks (indexedFileProducer p') =
           tasks (indexedFileProducer p)
           @ (case (graph, err) of
                (Some g, None) \<Rightarrow> if node_Id g = [] then [] else [ScanTask g fl]
              | _ \<Rightarrow> []) \<and>
         length (tasks (indexedFileProducer p')) \<le> Suc (length (tasks (indexedFileProducer p))) \<and>
         running (indexedFileProducer p') = running (indexedFileProducer p) \<and>
         panicked p' = None"
proof -
  from indexer_runs_forwarded [OF assms]
  have forwarded: "tasks (indexedFileProducer p') =
           tasks (indexedFileProducer p)
           @ (case (graph, err) of
                (Some g, None) \<Rightarrow> if node_Id g = [] then [] else [ScanTask g fl]
              | _ \<Rightarrow> [])"
    and workers: "running (indexedFileProducer p') = running (indexedFileProducer p)"
    by simp_all
  have "length (case (graph, err) of
                  (Some g, None) \<Rightarrow> if node_Id g = [] then [] else [ScanTask g fl]
                | _ \<Rightarrow> []) \<le> 1"
    by (simp split: option.splits)
  with forwarded
  have one: "length (tasks (indexedFileProducer p')) \<le> Suc (length (tasks (indexedFileProducer p)))"
    by simp
  from assms(1) have "pipeline_inv scanCmd p" by (rule reachable_inv)
  from step_inv [OF this assms(2)] have "panicked p' = None"
    by (simp add: pipeline_inv_def)
  with forwarded workers one show ?thesis by simp
qed

lemma indexFile_unsupported:
  assumes "RunCmdOutput senv (indexerPath scanCmd) [indexingCommand, filePath] = (printed, Some failure)"
    and "file_not_supported failure"
  shows "indexFile senv scanCmd filePath =
           (Some zero_GraphNode, None,
            [LogDebug (''File '' @ filePath @ '' is not supported by Xray indexer app.'')])"
  using assms by (cases failure) (simp_all add: indexFile_def file_not_supported_def)

lemma indexFile_failed:
  assumes "RunCmdOutput senv (indexerPath scanCmd) [indexingCommand, filePath] = (printed, Some failure)"
    and "\<not> file_not_supported failure"
  shows "indexFile senv scanCmd filePath = (None, Some (indexFile_failure filePath failure printed), [])"
  using assms by (cases failure) (simp_all add: indexFile_def file_not_supported_def)

lemma AddError_nonempty:
  "0 < queueSize q \<Longrightarrow> errorsChan (AddError e q) \<noteq> []"
  by (cases "errorsChan q") (simp_all add: AddError_def)

lemma AddError_first: "0 < queueSize q \<Longrightarrow> errorsChan q = [] \<Longrightarrow> errorsChan (AddError e q) = [e]"
  by (simp add: AddError_def)

lemma AddError_one:
  "queueSize q = 1 \<Longrightarrow>
   errorsChan (AddError e q) = (if errorsChan q = [] then [e] else errorsChan q)"
  by (cases "errorsChan q") (simp_all add: AddError_def)

lemma indexTaskFunc_logs:
  assumes nc: "\<not> closed (indexedFileProducer p)"
    and run: "indexTaskFunc senv scanCmd filePath fl t p = Some (p1, err)"
    and ix: "indexFile senv scanCmd filePath = (graph, ierr, lg)"
  shows "logs p1 =
           logs p @ [LogInfo (GetLogMsgPrefix senv t False @ ''Indexing file: '' @ filePath)] @ lg"
proof -
  have nil: "ierr = None \<Longrightarrow> graph \<noteq> None"
    using indexFile_nil [of senv scanCmd filePath ierr lg] ix by auto
  show ?thesis
    using run ix nc nil
    by (auto simp: indexTaskFunc_def Let_def AddTaskWithError_def
        split: option.splits if_splits blocking.splits)
qed

lemma indexer_runs_logs:
  assumes reach: "exec senv scanCmd xrayVersion schedule (initial_pipeline cenv scanCmd) = Some p"
    and st: "step senv scanCmd xrayVersion (IndexerRuns t) p = Some p'"
    and task: "running (fileProducer p) ! t = Some (IndexTask filePath fl)"
    and ix: "indexFile senv scanCmd filePath = (graph, err, logged)"
  shows "logs p' =
           logs p @ [LogInfo (GetLogMsgPrefix senv t False @ ''Indexing file: '' @ filePath)]
           @ logged"
proof -
  from reach have inv: "pipeline_inv scanCmd p" by (rule reachable_inv)
  from indexer_runs_unfold [OF inv st task] obtain p1 e where
    nc: "\<not> closed (indexedFileProducer p)"
    and run: "indexTaskFunc senv scanCmd filePath fl t p = Some (p1, e)"
    and p': "p' = (case e of None \<Rightarrow> p1
                 | Some e' \<Rightarrow> p1\<lparr>fileErrorsQueue := AddError e' (fileErrorsQueue p1)\<rparr>)
                \<lparr>fileProducer := finish_task t e
                    (fileProducer (case e of None \<Rightarrow> p1
                       | Some e' \<Rightarrow> p1\<lparr>fileErrorsQueue := AddError e' (fileErrorsQueue p1)\<rparr>))\<rparr>"
    by blast
  have "logs p' = logs p1" unfolding p' by (cases e) simp_all
  with indexTaskFunc_logs [OF nc run ix] show ?thesis by simp
qed

lemma indexer_runs_effect:
  assumes reach: "exec senv scanCmd xrayVersion schedule (initial_pipeline cenv scanCmd) = Some p"
    and st: "step senv scanCmd xrayVersion (IndexerRuns t) p = Some p'"
    and task: "running (fileProducer p) ! t = Some (IndexTask filePath fl)"
    and ix: "indexFile senv scanCmd filePath = (graph, err, logged)"
  shows "fileErrorsQueue p' =
           (case err of None \<Rightarrow> fileErrorsQueue p | Some e \<Rightarrow> AddError e (fileErrorsQueue p))"
    and "indexedFileErrorsQueue p' = indexedFileErrorsQueue p"
    and "resultsArr p' = resultsArr p"
    and "queueSize (fileErrorsQueue p) = 1"
proof -
  from reach have inv: "pipeline_inv scanCmd p" by (rule reachable_inv)
  from indexer_runs_unfold [OF inv st task] obtain p1 e where
    nc: "\<not> closed (indexedFileProducer p)"
    and run: "indexTaskFunc senv scanCmd filePath fl t p = Some (p1, e)"
    and p': "p' = (case e of None \<Rightarrow> p1
                 | Some e' \<Rightarrow> p1\<lparr>fileErrorsQueue := AddError e' (fileErrorsQueue p1)\<rparr>)
                \<lparr>fileProducer := finish_task t e
                    (fileProducer (case e of None \<Rightarrow> p1
                       | Some e' \<Rightarrow> p1\<lparr>fileErrorsQueue := AddError e' (fileErrorsQueue p1)\<rparr>))\<rparr>"
    by blast
  note r = indexTaskFunc_result [OF nc run ix]
  show "fileErrorsQueue p' =
           (case err of None \<Rightarrow> fileErrorsQueue p | Some e \<Rightarrow> AddError e (fileErrorsQueue p))"
    unfolding p' using r(1,2) by (cases e) auto
  show "indexedFileErrorsQueue p' = indexedFileErrorsQueue p"
    unfolding p' using r(3) by (cases e) auto
  show "resultsArr p' = resultsArr p"
    unfolding p' using r(4) by (cases e) auto
  show "queueSize (fileErrorsQueue p) = 1"
    using inv by (simp add: pipeline_inv_def inv_config_def)
qed

lemma broken_indexer_run:
  "case exec broken_indexer_services example_command ''3.40.0'' broken_indexer_schedule
          (initial_pipeline example_collector example_command) of
     None \<Rightarrow> False
   | Some p \<Rightarrow>
       caller p = CallerReturned \<and>
       errorsChan (fileErrorsQueue p)
         = [OtherError ''Xray indexer app failed indexing a/x.jar with exit status 1: broken''] \<and>
       errorsChan (indexedFileErrorsQueue p) = [] \<and>
       logs p = [LogInfo ''Indexing file: a/x.jar'', LogInfo ''Indexing file: b/y.jar'']"
  by (simp add: pipeline_eval example_defs)

text \<open>
  C4 as it is written does not hold: it has the error of every file that the indexer
  fails on recorded in the error queue of the first stage. In the run below the indexer
  fails on both files. \<^verbatim>\<open>indexFile\<close> returns an error for \<^verbatim>\<open>b/y.jar\<close>, and when
  \<^verbatim>\<open>performScanTasks\<close> has returned the queue of the first stage holds the error of
  \<^verbatim>\<open>a/x.jar\<close> alone: the queue has room for one error, and the task does not log the error
  it returns, so the error of \<^verbatim>\<open>b/y.jar\<close> is in neither queue and not in the log.
\<close>

theorem second_indexing_error_is_dropped:
  "indexFile broken_indexer_services example_command ''b/y.jar'' =
     (None,
      Some (OtherError ''Xray indexer app failed indexing b/y.jar with exit status 1: broken''),
      []) \<and>
   map_option caller
     (exec broken_indexer_services example_command ''3.40.0'' broken_indexer_schedule
        (initial_pipeline example_collector example_command)) = Some CallerReturned \<and>
   map_option (errorsChan \<circ> fileErrorsQueue)
     (exec broken_indexer_services example_command ''3.40.0'' broken_indexer_schedule
        (initial_pipeline example_collector example_command))
     = Some [OtherError ''Xray indexer app failed indexing a/x.jar with exit status 1: broken''] \<and>
   map_option (errorsChan \<circ> indexedFileErrorsQueue)
     (exec broken_indexer_services example_command ''3.40.0'' broken_indexer_schedule
        (initial_pipeline example_collector example_command)) = Some [] \<and>
   map_option logs
     (exec broken_indexer_services example_command ''3.40.0'' broken_indexer_schedule
        (initial_pipeline example_collector example_command))
     = Some [LogInfo ''Indexing file: a/x.jar'', LogInfo ''Indexing file: b/y.jar'']"
proof -
  have "indexFile broken_indexer_services example_command ''b/y.jar'' =
     (None,
      Some (OtherError ''Xray indexer app failed indexing b/y.jar with exit status 1: broken''),
      [])"
    by (simp add: pipeline_eval example_defs)
  with broken_indexer_run show ?thesis
    by (auto split: option.splits)
qed

text \<open>
  C4 (amended). When the indexer exits with the exit code 3 of an unsupported file,
  \<^verbatim>\<open>indexFile\<close> returns the empty graph and no error. For any other failure of the indexer
  process, an exit with another code or a failure to run it, \<^verbatim>\<open>indexFile\<close> returns an error
  and no graph. When \<^verbatim>\<open>indexFile\<close> returns an error, the worker offers it to the error queue
  of the first stage, which keeps it if it holds no error yet and drops it otherwise: the
  queue holds the first error of the stage. The task logs the file it indexes and not the
  error, and nothing is added to the second pool.
\<close>

theorem unsupported_file_is_empty_result_other_failures_are_errors:
  "(RunCmdOutput senv (indexerPath scanCmd) [indexingCommand, filePath] = (printed, Some failure)
      \<and> file_not_supported failure \<longrightarrow>
      indexFile senv scanCmd filePath =
        (Some zero_GraphNode, None,
         [LogDebug (''File '' @ filePath @ '' is not supported by Xray indexer app.'')])
      \<and> node_Id zero_GraphNode = []) \<and>
   (RunCmdOutput senv (indexerPath scanCmd) [indexingCommand, filePath] = (printed, Some failure)
      \<and> \<not> file_not_supported failure \<longrightarrow>
      indexFile senv scanCmd filePath =
        (None, Some (indexFile_failure filePath failure printed), [])) \<and>
   (exec senv scanCmd xrayVersion schedule (initial_pipeline cenv scanCmd) = Some p
      \<and> step senv scanCmd xrayVersion (IndexerRuns t) p = Some p'
      \<and> running (fileProducer p) ! t = Some (IndexTask filePath fl)
      \<and> indexFile senv scanCmd filePath = (graph, Some err, logged) \<longrightarrow>
      fileErrorsQueue p' = AddError err (fileErrorsQueue p)
      \<and> errorsChan (fileErrorsQueue p') =
            (if errorsChan (fileErrorsQueue p) = [] then [err]
             else errorsChan (fileErrorsQueue p))
      \<and> errorsChan (fileErrorsQueue p') \<noteq> []
      \<and> logs p' =
            logs p @ [LogInfo (GetLogMsgPrefix senv t False @ ''Indexing file: '' @ filePath)]
            @ logged
      \<and> indexedFileErrorsQueue p' = indexedFileErrorsQueue p
      \<and> tasks (indexedFileProducer p') = tasks (indexedFileProducer p)
      \<and> running (indexedFileProducer p') = running (indexedFileProducer p))"
proof (intro conjI impI)
  assume a: "RunCmdOutput senv (indexerPath scanCmd) [indexingCommand, filePath] = (printed, Some failure)
      \<and> file_not_supported failure"
  then show "indexFile senv scanCmd filePath =
        (Some zero_GraphNode, None,
         [LogDebug (''File '' @ filePath @ '' is not supported by Xray indexer app.'')])"
    by (simp add: indexFile_unsupported)
  show "node_Id zero_GraphNode = []" by (simp add: zero_GraphNode_def)
next
  assume "RunCmdOutput senv (indexerPath scanCmd) [indexingCommand, filePath] = (printed, Some failure)
      \<and> \<not> file_not_supported failure"
  then show "indexFile senv scanCmd filePath =
        (None, Some (indexFile_failure filePath failure printed), [])"
    by (simp add: indexFile_failed)
next
  assume a: "exec senv scanCmd xrayVersion schedule (initial_pipeline cenv scanCmd) = Some p
      \<and> step senv scanCmd xrayVersion (IndexerRuns t) p = Some p'
      \<and> running (fileProducer p) ! t = Some (IndexTask filePath fl)
      \<and> indexFile senv scanCmd filePath = (graph, Some err, logged)"
  then have reach: "exec senv scanCmd xrayVersion schedule (initial_pipeline cenv scanCmd) = Some p"
    and st: "step senv scanCmd xrayVersion (IndexerRuns t) p = Some p'"
    and task: "running (fileProducer p) ! t = Some (IndexTask filePath fl)"
    and ix: "indexFile senv scanCmd filePath = (graph, Some err, logged)"
    by simp_all
  note eff = indexer_runs_effect [OF reach st task ix]
  from eff(1) show q: "fileErrorsQueue p' = AddError err (fileErrorsQueue p)" by simp
  show "errorsChan (fileErrorsQueue p') =
          (if errorsChan (fileErrorsQueue p) = [] then [err] else errorsChan (fileErrorsQueue p))"
    unfolding q using eff(4) by (rule AddError_one)
  show "errorsChan (fileErrorsQueue p') \<noteq> []"
    unfolding q using eff(4) by (simp add: AddError_nonempty)
  show "logs p' =
          logs p @ [LogInfo (GetLogMsgPrefix senv t False @ ''Indexing file: '' @ filePath)]
          @ logged"
    by (rule indexer_runs_logs [OF reach st task ix])
  show "indexedFileErrorsQueue p' = indexedFileErrorsQueue p" by (rule eff(2))
  from indexer_runs_forwarded [OF reach st task ix]
  show "tasks (indexedFileProducer p') = tasks (indexedFileProducer p)"
    and "running (indexedFileProducer p') = running (indexedFileProducer p)"
    by (simp_all split: option.splits)
qed














lemma example_indexing:
  "case exec example_services example_command ''3.40.0''
          [Producer, Producer, Coordinator, IndexerTakes 0]
          (initial_pipeline example_collector example_command) of
     None \<Rightarrow> False
   | Some p \<Rightarrow>
       running (fileProducer p) ! 0 = Some (IndexTask ''a/x.jar'' 0) \<and>
       tasks (indexedFileProducer p) = [] \<and>
       step example_services example_command ''3.40.0'' (IndexerRuns 0) p \<noteq> None"
  by (simp add: pipeline_eval example_defs)

lemma example_indexFile:
  "indexFile example_services example_command ''a/x.jar''
     = (Some \<lparr>node_Id = ''a/x.jar'', Nodes = []\<rparr>, None, [])"
  by (simp add: pipeline_eval example_defs)

theorem indexing_forwards_at_most_one_task_witness:
  "\<exists>p p'. exec example_services example_command ''3.40.0''
             [Producer, Producer, Coordinator, IndexerTakes 0]
             (initial_pipeline example_collector example_command) = Some p \<and>
          step example_services example_command ''3.40.0'' (IndexerRuns 0) p = Some p' \<and>
          running (fileProducer p) ! 0 = Some (IndexTask ''a/x.jar'' 0) \<and>
          tasks (indexedFileProducer p') = [ScanTask \<lparr>node_Id = ''a/x.jar'', Nodes = []\<rparr> 0]"
proof -
  from example_indexing obtain p p' where
    run: "exec example_services example_command ''3.40.0''
            [Producer, Producer, Coordinator, IndexerTakes 0]
            (initial_pipeline example_collector example_command) = Some p"
    and task: "running (fileProducer p) ! 0 = Some (IndexTask ''a/x.jar'' 0)"
    and empty: "tasks (indexedFileProducer p) = []"
    and st: "step example_services example_command ''3.40.0'' (IndexerRuns 0) p = Some p'"
    by (auto split: option.splits)
  from indexing_forwards_at_most_one_task [OF run st task example_indexFile] empty
  have "tasks (indexedFileProducer p') = [ScanTask \<lparr>node_Id = ''a/x.jar'', Nodes = []\<rparr> 0]"
    by simp
  with run st task show ?thesis by blast
qed

lemma failing_indexing:
  "case exec failing_services example_command ''3.40.0''
          [Producer, Producer, Coordinator, IndexerTakes 0]
          (initial_pipeline example_collector example_command) of
     None \<Rightarrow> False
   | Some p \<Rightarrow>
       running (fileProducer p) ! 0 = Some (IndexTask ''a/x.jar'' 0) \<and>
       tasks (indexedFileProducer p) = [] \<and>
       errorsChan (fileErrorsQueue p) = [] \<and>
       step failing_services example_command ''3.40.0'' (IndexerRuns 0) p \<noteq> None"
  by (simp add: pipeline_eval example_defs)

lemma broken_indexing:
  "case exec broken_indexer_services example_command ''3.40.0''
          [Producer, Producer, Producer, Producer, Producer, Coordinator,
           IndexerTakes 0, IndexerRuns 0, IndexerTakes 0]
          (initial_pipeline example_collector example_command) of
     None \<Rightarrow> False
   | Some p \<Rightarrow>
       running (fileProducer p) ! 0 = Some (IndexTask ''b/y.jar'' 0) \<and>
       tasks (indexedFileProducer p) = [] \<and>
       errorsChan (fileErrorsQueue p)
         = [OtherError ''Xray indexer app failed indexing a/x.jar with exit status 1: broken''] \<and>
       step broken_indexer_services example_command ''3.40.0'' (IndexerRuns 0) p \<noteq> None"
  by (simp add: pipeline_eval example_defs)

theorem unsupported_file_is_empty_result_other_failures_are_errors_witness:
  "indexFile unsupported_services example_command ''a/x.jar'' =
     (Some zero_GraphNode, None,
      [LogDebug ''File a/x.jar is not supported by Xray indexer app.'']) \<and>
   indexFile failing_services example_command ''a/x.jar'' =
     (None,
      Some (OtherError ''Xray indexer app failed indexing a/x.jar with exit status 1: broken''),
      []) \<and>
   (\<exists>p p'. exec failing_services example_command ''3.40.0''
              [Producer, Producer, Coordinator, IndexerTakes 0]
              (initial_pipeline example_collector example_command) = Some p \<and>
           step failing_services example_command ''3.40.0'' (IndexerRuns 0) p = Some p' \<and>
           errorsChan (fileErrorsQueue p) = [] \<and>
           errorsChan (fileErrorsQueue p') =
             [OtherError ''Xray indexer app failed indexing a/x.jar with exit status 1: broken''] \<and>
           tasks (indexedFileProducer p') = []) \<and>
   (\<exists>p p'. exec broken_indexer_services example_command ''3.40.0''
              [Producer, Producer, Producer, Producer, Producer, Coordinator,
               IndexerTakes 0, IndexerRuns 0, IndexerTakes 0]
              (initial_pipeline example_collector example_command) = Some p \<and>
           step broken_indexer_services example_command ''3.40.0'' (IndexerRuns 0) p = Some p' \<and>
           running (fileProducer p) ! 0 = Some (IndexTask ''b/y.jar'' 0) \<and>
           errorsChan (fileErrorsQueue p) =
             [OtherError ''Xray indexer app failed indexing a/x.jar with exit status 1: broken''] \<and>
           errorsChan (fileErrorsQueue p') =
             [OtherError ''Xray indexer app failed indexing a/x.jar with exit status 1: broken''] \<and>
           tasks (indexedFileProducer p') = [])"
proof -
  let ?e1 = "OtherError ''Xray indexer app failed indexing a/x.jar with exit status 1: broken''"
  let ?e2 = "OtherError ''Xray indexer app failed indexing b/y.jar with exit status 1: broken''"
  have u: "RunCmdOutput unsupported_services (indexerPath example_command)
             [indexingCommand, ''a/x.jar''] = ([], Some (ExitError 3 ''exit status 3''))
           \<and> file_not_supported (ExitError 3 ''exit status 3'')"
    by (simp add: unsupported_services_def file_not_supported_def fileNotSupportedExitCode_def)
  have f: "RunCmdOutput failing_services (indexerPath example_command)
             [indexingCommand, ''a/x.jar''] = (''broken'', Some (ExitError 1 ''exit status 1''))
           \<and> \<not> file_not_supported (ExitError 1 ''exit status 1'')"
    by (simp add: failing_services_def file_not_supported_def fileNotSupportedExitCode_def)
  from failing_indexing obtain p p' where
    run: "exec failing_services example_command ''3.40.0''
            [Producer, Producer, Coordinator, IndexerTakes 0]
            (initial_pipeline example_collector example_command) = Some p"
    and task: "running (fileProducer p) ! 0 = Some (IndexTask ''a/x.jar'' 0)"
    and empty: "tasks (indexedFileProducer p) = []" "errorsChan (fileErrorsQueue p) = []"
    and st: "step failing_services example_command ''3.40.0'' (IndexerRuns 0) p = Some p'"
    by (auto split: option.splits)
  from broken_indexing obtain q q' where
    run2: "exec broken_indexer_services example_command ''3.40.0''
            [Producer, Producer, Producer, Producer, Producer, Coordinator,
             IndexerTakes 0, IndexerRuns 0, IndexerTakes 0]
            (initial_pipeline example_collector example_command) = Some q"
    and task2: "running (fileProducer q) ! 0 = Some (IndexTask ''b/y.jar'' 0)"
    and full: "tasks (indexedFileProducer q) = []" "errorsChan (fileErrorsQueue q) = [?e1]"
    and st2: "step broken_indexer_services example_command ''3.40.0'' (IndexerRuns 0) q = Some q'"
    by (auto split: option.splits)
  have ix2: "indexFile broken_indexer_services example_command ''b/y.jar'' = (None, Some ?e2, [])"
    by (simp add: pipeline_eval example_defs)
  note unsupported = unsupported_file_is_empty_result_other_failures_are_errors
    [where senv=unsupported_services and scanCmd=example_command and filePath="''a/x.jar''"
       and printed="[]" and failure="ExitError 3 ''exit status 3''"]
  note failed = unsupported_file_is_empty_result_other_failures_are_errors
    [where senv=failing_services and scanCmd=example_command and filePath="''a/x.jar''"
       and printed="''broken''" and failure="ExitError 1 ''exit status 1''"
       and xrayVersion="''3.40.0''" and cenv=example_collector and p=p and p'=p' and t=0
       and fl=0 and schedule="[Producer, Producer, Coordinator, IndexerTakes 0]"
       and graph=None and err="?e1" and logged="[]"]
  note dropped = unsupported_file_is_empty_result_other_failures_are_errors
    [where senv=broken_indexer_services and scanCmd=example_command and filePath="''b/y.jar''"
       and xrayVersion="''3.40.0''" and cenv=example_collector and p=q and p'=q' and t=0
       and fl=0
       and schedule="[Producer, Producer, Producer, Producer, Producer, Coordinator,
                      IndexerTakes 0, IndexerRuns 0, IndexerTakes 0]"
       and graph=None and err="?e2" and logged="[]"]
  from unsupported [THEN conjunct1] u have 1: "indexFile unsupported_services example_command ''a/x.jar'' =
     (Some zero_GraphNode, None,
      [LogDebug ''File a/x.jar is not supported by Xray indexer app.''])"
    by simp
  from failed [THEN conjunct2, THEN conjunct1] f
  have 2: "indexFile failing_services example_command ''a/x.jar'' = (None, Some ?e1, [])"
    by (simp add: indexFile_failure_def)
  from failed [THEN conjunct2, THEN conjunct2] run st task 2 have
    "errorsChan (fileErrorsQueue p') =
       (if errorsChan (fileErrorsQueue p) = [] then [?e1] else errorsChan (fileErrorsQueue p))"
    "tasks (indexedFileProducer p') = tasks (indexedFileProducer p)"
    by blast+
  with empty have 3: "errorsChan (fileErrorsQueue p') = [?e1]" "tasks (indexedFileProducer p') = []"
    by simp_all
  from dropped [THEN conjunct2, THEN conjunct2] run2 st2 task2 ix2 have
    "errorsChan (fileErrorsQueue q') =
       (if errorsChan (fileErrorsQueue q) = [] then [?e2] else errorsChan (fileErrorsQueue q))"
    "tasks (indexedFileProducer q') = tasks (indexedFileProducer q)"
    by blast+
  with full have 4: "errorsChan (fileErrorsQueue q') = [?e1]" "tasks (indexedFileProducer q') = []"
    by simp_all
  have a: "\<exists>p p'. exec failing_services example_command ''3.40.0''
              [Producer, Producer, Coordinator, IndexerTakes 0]
              (initial_pipeline example_collector example_command) = Some p \<and>
           step failing_services example_command ''3.40.0'' (IndexerRuns 0) p = Some p' \<and>
           errorsChan (fileErrorsQueue p) = [] \<and>
           errorsChan (fileErrorsQueue p') = [?e1] \<and>
           tasks (indexedFileProducer p') = []"
    using run st empty(2) 3 by (intro exI [of _ p] exI [of _ p'] conjI)
  have b: "\<exists>p p'. exec broken_indexer_services example_command ''3.40.0''
              [Producer, Producer, Producer, Producer, Producer, Coordinator,
               IndexerTakes 0, IndexerRuns 0, IndexerTakes 0]
              (initial_pipeline example_collector example_command) = Some p \<and>
           step broken_indexer_services example_command ''3.40.0'' (IndexerRuns 0) p = Some p' \<and>
           running (fileProducer p) ! 0 = Some (IndexTask ''b/y.jar'' 0) \<and>
           errorsChan (fileErrorsQueue p) = [?e1] \<and>
           errorsChan (fileErrorsQueue p') = [?e1] \<and>
           tasks (indexedFileProducer p') = []"
    using run2 st2 task2 full(2) 4 by (intro exI [of _ q] exI [of _ q'] conjI)
  from 1 2 a b show ?thesis by (intro conjI)
qed





end
